theory Spec2Isabelle
  imports Main "HOL-Library.Word"
begin

unbundle bit_operations_syntax

section \<open>libmaple/rcc.c: clock setup, clock enable and peripheral reset on the STM32\<close>

type_synonym u8 = "8 word"
type_synonym u32 = "32 word"

subsection \<open>Registers, bus accesses and outcomes\<close>

text \<open>
  The driver holds no state of its own: all of it is in the memory-mapped registers. The
  register file is a store from addresses to the 32-bit value last written there (or
  present at the start); the trace records every bus access in program order, so that the
  order of reads and writes can be observed and not only the final contents.
\<close>

datatype event = Rd u32 u32 | Wr u32 u32

record rcc_state =
  regs :: "u32 \<Rightarrow> u32"
  trace :: "event list"

text \<open>
  The hardware decides what a volatile read returns: status bits such as HSERDY are set
  by the chip, not by the program. \<open>hw t r a\<close> is the value a read of address \<open>a\<close>
  returns when it is the \<open>t\<close>-th bus access and the registers were last written as \<open>r\<close>.
  \<open>stored\<close> is hardware that only stores: every read returns what was written.
\<close>

type_synonym hw = "nat \<Rightarrow> (u32 \<Rightarrow> u32) \<Rightarrow> u32 \<Rightarrow> u32"

definition stored :: hw where
  "stored t r a = r a"

text \<open>
  Modelled from the spec: \<^verbatim>\<open>__read\<close>, \<^verbatim>\<open>__write\<close>, \<^verbatim>\<open>__set_bits\<close>, \<^verbatim>\<open>__clear_bits\<close> and
  \<^verbatim>\<open>BIT\<close> of libmaple.h, which is not among the sources. The spec gives them as a 32-bit
  memory-mapped \<^verbatim>\<open>read(address) -> u32\<close>, \<^verbatim>\<open>write(address, value)\<close>,
  \<^verbatim>\<open>set_bits(address, mask)\<close> (an atomic or into the register) and
  \<^verbatim>\<open>clear_bits(address, mask)\<close>; a line number is a bit position 0..31. A read asks the
  hardware; set and clear act on the register's stored bits in one step and appear in
  the trace as the write of the new value.
\<close>

definition reg_read :: "hw \<Rightarrow> u32 \<Rightarrow> rcc_state \<Rightarrow> u32 \<times> rcc_state" where
  "reg_read hw a s =
     (let v = hw (length (trace s)) (regs s) a
      in (v, s\<lparr>trace := trace s @ [Rd a v]\<rparr>))"

definition reg_write :: "u32 \<Rightarrow> u32 \<Rightarrow> rcc_state \<Rightarrow> rcc_state" where
  "reg_write a v s = s\<lparr>regs := (regs s)(a := v), trace := trace s @ [Wr a v]\<rparr>"

definition reg_set_bits :: "u32 \<Rightarrow> u32 \<Rightarrow> rcc_state \<Rightarrow> rcc_state" where
  "reg_set_bits a m s = reg_write a (regs s a OR m) s"

definition reg_clear_bits :: "u32 \<Rightarrow> u32 \<Rightarrow> rcc_state \<Rightarrow> rcc_state" where
  "reg_clear_bits a m s = reg_write a (regs s a AND NOT m) s"

definition BIT :: "nat \<Rightarrow> u32" where
  "BIT n = push_bit n 1"

text \<open>
  Modelled from the spec: \<^verbatim>\<open>ASSERT\<close> of libmaple.h, which is not among the sources. The
  spec gives it as an assertion primitive that halts or traps on failure, with no recovery.

  How a call ends. \<open>Returned\<close>: the function returned, in this state. \<open>Assert_failed\<close>:
  an \<^verbatim>\<open>ASSERT\<close> did not hold and the program halted; the state is the one at the halt.
  \<open>Out_of_bounds\<close>: the code indexed one of its constant arrays past its end, which C
  leaves undefined; the state is the one reached before that read. A busy-wait that never
  ends is the value \<open>None\<close> of the functions that can spin.
\<close>

datatype rcc_result = Returned rcc_state | Assert_failed rcc_state | Out_of_bounds rcc_state

subsection \<open>Register addresses and bit fields (rcc.c, lines 34 to 68)\<close>

definition RCC_BASE :: u32 where "RCC_BASE = 0x40021000"
definition RCC_CR :: u32 where "RCC_CR = RCC_BASE + 0x0"
definition RCC_CFGR :: u32 where "RCC_CFGR = RCC_BASE + 0x4"
definition RCC_APB2RSTR :: u32 where "RCC_APB2RSTR = RCC_BASE + 0xC"
definition RCC_APB1RSTR :: u32 where "RCC_APB1RSTR = RCC_BASE + 0x10"
definition RCC_AHBENR :: u32 where "RCC_AHBENR = RCC_BASE + 0x14"
definition RCC_APB2ENR :: u32 where "RCC_APB2ENR = RCC_BASE + 0x18"
definition RCC_APB1ENR :: u32 where "RCC_APB1ENR = RCC_BASE + 0x1C"

definition RCC_CFGR_USBPRE :: u32 where "RCC_CFGR_USBPRE = push_bit 22 0x1"
definition RCC_CFGR_ADCPRE :: u32 where "RCC_CFGR_ADCPRE = push_bit 14 0x3"
definition RCC_CFGR_PPRE1 :: u32 where "RCC_CFGR_PPRE1 = push_bit 8 0x7"
definition RCC_CFGR_PPRE2 :: u32 where "RCC_CFGR_PPRE2 = push_bit 11 0x7"
definition RCC_CFGR_HPRE :: u32 where "RCC_CFGR_HPRE = push_bit 4 0xF"

definition RCC_CFGR_SWS :: u32 where "RCC_CFGR_SWS = push_bit 2 0x3"
definition RCC_CFGR_SWS_PLL :: u32 where "RCC_CFGR_SWS_PLL = push_bit 2 0x2"
definition RCC_CFGR_SW :: u32 where "RCC_CFGR_SW = push_bit 0 0x3"
definition RCC_CFGR_SW_PLL :: u32 where "RCC_CFGR_SW_PLL = push_bit 0 0x2"

definition RCC_CR_HSEON :: u32 where "RCC_CR_HSEON = push_bit 16 0x1"
definition RCC_CR_HSERDY :: u32 where "RCC_CR_HSERDY = push_bit 17 0x1"
definition RCC_CR_PLLON :: u32 where "RCC_CR_PLLON = push_bit 24 0x1"
definition RCC_CR_PLLRDY :: u32 where "RCC_CR_PLLRDY = push_bit 25 0x1"

text \<open>The bus domains: \<^verbatim>\<open>enum { APB1, APB2, AHB }\<close>, stored in a \<^verbatim>\<open>uint8\<close>.\<close>

definition APB1 :: u8 where "APB1 = 0"
definition APB2 :: u8 where "APB2 = 1"
definition AHB :: u8 where "AHB = 2"

subsection \<open>What rcc.h declares\<close>

text \<open>
  rcc.h is not among the sources. It names the peripherals and the prescalers and gives
  them their numbers, and it defines the two clock-source constants that
  \<^verbatim>\<open>rcc_clk_init\<close> compares its arguments with. The names are the ones rcc.c uses; the
  numbers are a parameter \<open>h\<close> of everything that depends on them.
\<close>

datatype rcc_dev =
  RCC_GPIOA | RCC_GPIOB | RCC_GPIOC | RCC_GPIOD | RCC_AFIO | RCC_ADC1 | RCC_USART1
| RCC_USART2 | RCC_USART3 | RCC_TIMER1 | RCC_TIMER2 | RCC_TIMER3 | RCC_TIMER4

datatype rcc_prescaler =
  RCC_PRESCALER_AHB | RCC_PRESCALER_APB1 | RCC_PRESCALER_APB2 | RCC_PRESCALER_USB
| RCC_PRESCALER_ADC

record rcc_h =
  RCC_CLKSRC_PLL :: u32
  RCC_PLLSRC_HSE :: u32
  dev_num :: "rcc_dev \<Rightarrow> u32"
  prescaler_num :: "rcc_prescaler \<Rightarrow> u32"

subsection \<open>Constant arrays\<close>

text \<open>
  A C array written with designated initialisers \<^verbatim>\<open>[K] = v\<close>: it is as long as its largest
  designated index plus one, a later initialiser of an index replaces an earlier one, and
  an index no initialiser names holds zero. Reading at or past the length is \<open>None\<close>.
\<close>

definition designated :: "('k \<Rightarrow> u32) \<Rightarrow> ('k \<times> 'v) list \<Rightarrow> 'v \<Rightarrow> u32 \<Rightarrow> 'v option" where
  "designated num inits zero n =
     (if list_all (\<lambda>(k, v). num k < n) inits then None
      else case find (\<lambda>(k, v). num k = n) (rev inits) of
             Some (k, v) \<Rightarrow> Some v
           | None \<Rightarrow> Some zero)"

text \<open>An array whose indices are known: reading at or past the length is \<open>None\<close>.\<close>

definition array_at :: "'v list \<Rightarrow> nat \<Rightarrow> 'v option" where
  "array_at xs n = (if n < length xs then Some (xs ! n) else None)"

record rcc_dev_info =
  clk_domain :: u8
  line_num :: u8

definition rcc_dev_inits :: "(rcc_dev \<times> rcc_dev_info) list" where
  "rcc_dev_inits =
    [(RCC_GPIOA,  \<lparr>clk_domain = APB2, line_num = 2\<rparr>),
     (RCC_GPIOB,  \<lparr>clk_domain = APB2, line_num = 3\<rparr>),
     (RCC_GPIOC,  \<lparr>clk_domain = APB2, line_num = 4\<rparr>),
     (RCC_GPIOD,  \<lparr>clk_domain = APB2, line_num = 5\<rparr>),
     (RCC_AFIO,   \<lparr>clk_domain = APB2, line_num = 0\<rparr>),
     (RCC_ADC1,   \<lparr>clk_domain = APB2, line_num = 9\<rparr>),
     (RCC_USART1, \<lparr>clk_domain = APB2, line_num = 14\<rparr>),
     (RCC_USART2, \<lparr>clk_domain = APB1, line_num = 17\<rparr>),
     (RCC_USART3, \<lparr>clk_domain = APB1, line_num = 18\<rparr>),
     (RCC_TIMER1, \<lparr>clk_domain = APB2, line_num = 11\<rparr>),
     (RCC_TIMER2, \<lparr>clk_domain = APB1, line_num = 0\<rparr>),
     (RCC_TIMER3, \<lparr>clk_domain = APB1, line_num = 1\<rparr>),
     (RCC_TIMER4, \<lparr>clk_domain = APB1, line_num = 2\<rparr>)]"

definition rcc_dev_table :: "rcc_h \<Rightarrow> u32 \<Rightarrow> rcc_dev_info option" where
  "rcc_dev_table h n =
     designated (dev_num h) rcc_dev_inits \<lparr>clk_domain = 0, line_num = 0\<rparr> n"

definition enable_regs :: "u32 list" where
  "enable_regs = [RCC_APB1ENR, RCC_APB2ENR, RCC_AHBENR]"

definition reset_regs :: "u32 list" where
  "reset_regs = [RCC_APB1RSTR, RCC_APB2RSTR]"

definition masks :: "rcc_h \<Rightarrow> u32 \<Rightarrow> u32 option" where
  "masks h n =
     designated (prescaler_num h)
       [(RCC_PRESCALER_AHB, RCC_CFGR_HPRE),
        (RCC_PRESCALER_APB1, RCC_CFGR_PPRE1),
        (RCC_PRESCALER_APB2, RCC_CFGR_PPRE2),
        (RCC_PRESCALER_USB, RCC_CFGR_USBPRE),
        (RCC_PRESCALER_ADC, RCC_CFGR_ADCPRE)] 0 n"

subsection \<open>rcc\_clk\_init\<close>

text \<open>
  \<^verbatim>\<open>while (cond(__read(a))) ;\<close>: read the register again and again until the value read
  ends the loop. Nothing bounds the number of reads; a loop that never ends is \<open>None\<close>.
\<close>

partial_function (option) busy_wait ::
  "hw \<Rightarrow> u32 \<Rightarrow> (u32 \<Rightarrow> bool) \<Rightarrow> rcc_state \<Rightarrow> rcc_state option" where
  "busy_wait hw a spin s =
     (case reg_read hw a s of
        (v, s') \<Rightarrow> if spin v then busy_wait hw a spin s' else Some s')"

declare busy_wait.simps [code]

definition rcc_clk_init ::
  "hw \<Rightarrow> rcc_h \<Rightarrow> u32 \<Rightarrow> u32 \<Rightarrow> u32 \<Rightarrow> rcc_state \<Rightarrow> rcc_result option" where
  "rcc_clk_init hw h sysclk_src pll_src pll_mul s =
     (if \<not> (sysclk_src = RCC_CLKSRC_PLL h \<and> pll_src = RCC_PLLSRC_HSE h)
      then Some (Assert_failed s)
      else
        (case reg_read hw RCC_CR s of (cr, s1) \<Rightarrow>
          (let cfgr = pll_src OR pll_mul;
               s2 = reg_write RCC_CFGR cfgr s1;
               cr = cr OR RCC_CR_HSEON;
               s3 = reg_write RCC_CR cr s2
           in (case busy_wait hw RCC_CR (\<lambda>v. (v AND RCC_CR_HSERDY) = 0) s3 of
                 None \<Rightarrow> None
               | Some s4 \<Rightarrow>
          (let cr = cr OR RCC_CR_PLLON;
               s5 = reg_write RCC_CR cr s4
           in (case busy_wait hw RCC_CR (\<lambda>v. (v AND RCC_CR_PLLRDY) = 0) s5 of
                 None \<Rightarrow> None
               | Some s6 \<Rightarrow>
          (let cfgr = cfgr AND NOT RCC_CFGR_SW;
               cfgr = cfgr OR RCC_CFGR_SW_PLL;
               s7 = reg_write RCC_CFGR cfgr s6
           in (case busy_wait hw RCC_CFGR
                      (\<lambda>v. (v AND RCC_CFGR_SWS) \<noteq> RCC_CFGR_SWS_PLL) s7 of
                 None \<Rightarrow> None
               | Some s8 \<Rightarrow> Some (Returned s8)))))))))"

subsection \<open>rcc\_clk\_enable, rcc\_set\_prescaler, rcc\_reset\_dev\<close>

definition rcc_clk_enable :: "rcc_h \<Rightarrow> u32 \<Rightarrow> rcc_state \<Rightarrow> rcc_result" where
  "rcc_clk_enable h dev s =
     (case rcc_dev_table h dev of
        None \<Rightarrow> Out_of_bounds s
      | Some d \<Rightarrow>
          (case array_at enable_regs (unat (clk_domain d)) of
             None \<Rightarrow> Out_of_bounds s
           | Some r \<Rightarrow> Returned (reg_set_bits r (BIT (unat (line_num d))) s)))"

definition rcc_set_prescaler :: "hw \<Rightarrow> rcc_h \<Rightarrow> u32 \<Rightarrow> u32 \<Rightarrow> rcc_state \<Rightarrow> rcc_result" where
  "rcc_set_prescaler hw h prescaler divider s =
     (case reg_read hw RCC_CFGR s of (cfgr, s1) \<Rightarrow>
        (case masks h prescaler of
           None \<Rightarrow> Out_of_bounds s1
         | Some m \<Rightarrow>
             let cfgr = cfgr AND NOT m;
                 cfgr = cfgr OR divider
             in Returned (reg_write RCC_CFGR cfgr s1)))"

definition rcc_reset_dev :: "rcc_h \<Rightarrow> u32 \<Rightarrow> rcc_state \<Rightarrow> rcc_result" where
  "rcc_reset_dev h dev s =
     (case rcc_dev_table h dev of
        None \<Rightarrow> Out_of_bounds s
      | Some d \<Rightarrow>
          (case array_at reset_regs (unat (clk_domain d)) of
             None \<Rightarrow> Out_of_bounds s
           | Some r \<Rightarrow>
               Returned (reg_clear_bits r (BIT (unat (line_num d)))
                          (reg_set_bits r (BIT (unat (line_num d))) s))))"

subsection \<open>Observing runs\<close>

text \<open>
  \<open>polls a ok es\<close>: the accesses \<open>es\<close> are one or more reads of register \<open>a\<close>, and the
  last of them, and no earlier one, returned a value that satisfies \<open>ok\<close>. This is what a
  busy-wait on \<open>a\<close> leaves in the trace when it ends.
\<close>

fun polls :: "u32 \<Rightarrow> (u32 \<Rightarrow> bool) \<Rightarrow> event list \<Rightarrow> bool" where
  "polls a ok [] = False"
| "polls a ok (Rd a' v # es) =
     (a' = a \<and> (if es = [] then ok v else \<not> ok v \<and> polls a ok es))"
| "polls a ok (Wr a' v # es) = False"

text \<open>
  \<open>reads_as a ok\<close> holds of a read of register \<open>a\<close> that returned a value satisfying
  \<open>ok\<close>, \<open>writes_as a p\<close> of a write to register \<open>a\<close> of a value satisfying \<open>p\<close>.
  \<open>only_after c w es\<close>: in the accesses \<open>es\<close>, no access of kind \<open>w\<close> comes before the
  first access of kind \<open>c\<close>.
\<close>

definition reads_as :: "u32 \<Rightarrow> (u32 \<Rightarrow> bool) \<Rightarrow> event \<Rightarrow> bool" where
  "reads_as a ok e = (case e of Rd a' v \<Rightarrow> a' = a \<and> ok v | Wr a' v \<Rightarrow> False)"

definition writes_as :: "u32 \<Rightarrow> (u32 \<Rightarrow> bool) \<Rightarrow> event \<Rightarrow> bool" where
  "writes_as a p e = (case e of Rd a' v \<Rightarrow> False | Wr a' v \<Rightarrow> a' = a \<and> p v)"

fun only_after :: "(event \<Rightarrow> bool) \<Rightarrow> (event \<Rightarrow> bool) \<Rightarrow> event list \<Rightarrow> bool" where
  "only_after c w [] = True"
| "only_after c w (e # es) = (c e \<or> (\<not> w e \<and> only_after c w es))"

text \<open>
  Concrete inputs on which the functions are run below. \<open>rcc_h0\<close> is one rcc.h: the two
  enumerations numbered from 0 in the order rcc.c lists them, and the clock-source
  constants as the bit patterns of the SW and PLLSRC fields. \<open>hw_follow\<close> is a chip whose
  ready bits follow the enable bits (the oscillator's only from the fifth bus access on)
  and whose SWS field follows SW. \<open>zeroed\<close> has every register zero and no access yet.
\<close>

definition rcc_h0 :: rcc_h where
  "rcc_h0 =
     \<lparr>RCC_CLKSRC_PLL = 0x2,
      RCC_PLLSRC_HSE = push_bit 16 0x1,
      dev_num = (\<lambda>d. case d of
          RCC_GPIOA \<Rightarrow> 0 | RCC_GPIOB \<Rightarrow> 1 | RCC_GPIOC \<Rightarrow> 2 | RCC_GPIOD \<Rightarrow> 3
        | RCC_AFIO \<Rightarrow> 4 | RCC_ADC1 \<Rightarrow> 5 | RCC_USART1 \<Rightarrow> 6 | RCC_USART2 \<Rightarrow> 7
        | RCC_USART3 \<Rightarrow> 8 | RCC_TIMER1 \<Rightarrow> 9 | RCC_TIMER2 \<Rightarrow> 10 | RCC_TIMER3 \<Rightarrow> 11
        | RCC_TIMER4 \<Rightarrow> 12),
      prescaler_num = (\<lambda>p. case p of
          RCC_PRESCALER_AHB \<Rightarrow> 0 | RCC_PRESCALER_APB1 \<Rightarrow> 1 | RCC_PRESCALER_APB2 \<Rightarrow> 2
        | RCC_PRESCALER_USB \<Rightarrow> 3 | RCC_PRESCALER_ADC \<Rightarrow> 4)\<rparr>"

definition hw_follow :: hw where
  "hw_follow t r a =
     (if a = RCC_CR then
        (r a OR (if (r a AND RCC_CR_HSEON) \<noteq> 0 \<and> 5 \<le> t then RCC_CR_HSERDY else 0))
          OR (if (r a AND RCC_CR_PLLON) \<noteq> 0 then RCC_CR_PLLRDY else 0)
      else if a = RCC_CFGR then
        (r a AND NOT RCC_CFGR_SWS) OR push_bit 2 (r a AND RCC_CFGR_SW)
      else r a)"

text \<open>\<open>hw_stuck v\<close> is a chip that answers every read with \<open>v\<close>, whatever was written.\<close>

definition hw_stuck :: "u32 \<Rightarrow> hw" where
  "hw_stuck v t r a = v"

definition zeroed :: rcc_state where
  "zeroed = \<lparr>regs = (\<lambda>a. 0), trace = []\<rparr>"

section \<open>Properties\<close>

lemmas rcc_consts =
  RCC_CR_def RCC_CFGR_def RCC_BASE_def RCC_APB2RSTR_def RCC_APB1RSTR_def
  RCC_AHBENR_def RCC_APB2ENR_def RCC_APB1ENR_def
  RCC_CFGR_USBPRE_def RCC_CFGR_ADCPRE_def RCC_CFGR_PPRE1_def RCC_CFGR_PPRE2_def
  RCC_CFGR_HPRE_def RCC_CFGR_SWS_def RCC_CFGR_SWS_PLL_def RCC_CFGR_SW_def
  RCC_CFGR_SW_PLL_def RCC_CR_HSEON_def RCC_CR_HSERDY_def RCC_CR_PLLON_def
  RCC_CR_PLLRDY_def APB1_def APB2_def AHB_def

subsection \<open>Busy-waits\<close>

lemma busy_wait_exit:
  "\<not> spin (hw (length (trace s)) (regs s) a) \<Longrightarrow>
   busy_wait hw a spin s = Some (s\<lparr>trace := trace s @ [Rd a (hw (length (trace s)) (regs s) a)]\<rparr>)"
  by (subst busy_wait.simps) (simp add: reg_read_def Let_def)

lemma busy_wait_again:
  "spin (hw (length (trace s)) (regs s) a) \<Longrightarrow>
   busy_wait hw a spin s =
   busy_wait hw a spin (s\<lparr>trace := trace s @ [Rd a (hw (length (trace s)) (regs s) a)]\<rparr>)"
  by (subst busy_wait.simps) (simp add: reg_read_def Let_def)

lemma busy_wait_Some:
  assumes "busy_wait hw a spin s = Some s'"
  shows "regs s' = regs s \<and> (\<exists>p. trace s' = trace s @ p \<and> polls a (\<lambda>v. \<not> spin v) p)"
proof (rule busy_wait.raw_induct
    [where P = "\<lambda>hw a spin s s'. regs s' = regs s \<and>
         (\<exists>p. trace s' = trace s @ p \<and> polls a (\<lambda>v. \<not> spin v) p)", OF _ assms])
  fix bw :: "hw \<Rightarrow> u32 \<Rightarrow> (u32 \<Rightarrow> bool) \<Rightarrow> rcc_state \<Rightarrow> rcc_state option"
    and hw a spin s s'
  assume IH: "\<And>hw a spin s s'. bw hw a spin s = Some s' \<Longrightarrow>
      regs s' = regs s \<and> (\<exists>p. trace s' = trace s @ p \<and> polls a (\<lambda>v. \<not> spin v) p)"
    and step: "(case reg_read hw a s of
        (v, s1) \<Rightarrow> if spin v then bw hw a spin s1 else Some s1) = Some s'"
  define v where "v = hw (length (trace s)) (regs s) a"
  define s1 where "s1 = s\<lparr>trace := trace s @ [Rd a v]\<rparr>"
  have rd: "reg_read hw a s = (v, s1)"
    by (simp add: reg_read_def v_def s1_def Let_def)
  show "regs s' = regs s \<and> (\<exists>p. trace s' = trace s @ p \<and> polls a (\<lambda>v. \<not> spin v) p)"
  proof (cases "spin v")
    case True
    with step rd have "bw hw a spin s1 = Some s'" by simp
    from IH [OF this] obtain p where
      r: "regs s' = regs s1" and t: "trace s' = trace s1 @ p" and p: "polls a (\<lambda>v. \<not> spin v) p"
      by blast
    from p have "p \<noteq> []" by auto
    with p True have "polls a (\<lambda>v. \<not> spin v) (Rd a v # p)" by simp
    moreover have "trace s' = trace s @ (Rd a v # p)" using t by (simp add: s1_def)
    ultimately show ?thesis using r by (auto simp: s1_def)
  next
    case False
    with step rd have "s' = s1" by simp
    moreover have "polls a (\<lambda>v. \<not> spin v) [Rd a v]" using False by simp
    ultimately show ?thesis by (auto simp: s1_def)
  qed
qed

lemma busy_wait_never:
  assumes "\<forall>t. spin (hw t (regs s) a)"
  shows "busy_wait hw a spin s = None"
proof (rule ccontr)
  assume "busy_wait hw a spin s \<noteq> None"
  then obtain s' where some: "busy_wait hw a spin s = Some s'" by auto
  have "\<exists>t. \<not> spin (hw t (regs s) a)"
  proof (rule busy_wait.raw_induct
      [where P = "\<lambda>hw a spin s s'. \<exists>t. \<not> spin (hw t (regs s) a)", OF _ some])
    fix bw :: "hw \<Rightarrow> u32 \<Rightarrow> (u32 \<Rightarrow> bool) \<Rightarrow> rcc_state \<Rightarrow> rcc_state option"
      and hw a spin s s'
    assume IH: "\<And>hw a spin s s'. bw hw a spin s = Some s' \<Longrightarrow> \<exists>t. \<not> spin (hw t (regs s) a)"
      and step: "(case reg_read hw a s of
          (v, s1) \<Rightarrow> if spin v then bw hw a spin s1 else Some s1) = Some s'"
    show "\<exists>t. \<not> spin (hw t (regs s) a)"
    proof (cases "spin (hw (length (trace s)) (regs s) a)")
      case True
      with step have "bw hw a spin (snd (reg_read hw a s)) = Some s'"
        by (simp add: reg_read_def Let_def)
      from IH [OF this] show ?thesis by (simp add: reg_read_def Let_def)
    next
      case False
      then show ?thesis by blast
    qed
  qed
  with assms show False by blast
qed

lemma busy_wait_returns:
  assumes "\<not> spin (hw (length (trace s) + k) (regs s) a)"
  shows "\<exists>s'. busy_wait hw a spin s = Some s'"
  using assms
proof (induction k arbitrary: s)
  case 0
  then show ?case by (simp add: busy_wait_exit)
next
  case (Suc k)
  show ?case
  proof (cases "spin (hw (length (trace s)) (regs s) a)")
    case True
    let ?s1 = "s\<lparr>trace := trace s @ [Rd a (hw (length (trace s)) (regs s) a)]\<rparr>"
    from Suc.prems have "\<not> spin (hw (length (trace ?s1) + k) (regs ?s1) a)" by simp
    from Suc.IH [OF this] show ?thesis
      by (simp add: busy_wait_again [where spin = spin and hw = hw and s = s and a = a, OF True])
  next
    case False
    then show ?thesis by (simp add: busy_wait_exit)
  qed
qed

lemma rcc_clk_init_Returned:
  assumes "rcc_clk_init hw h sysclk_src pll_src pll_mul s = Some (Returned s')"
  shows "sysclk_src = RCC_CLKSRC_PLL h \<and> pll_src = RCC_PLLSRC_HSE h \<and>
    (\<exists>cr p1 p2 p3.
       cr = hw (length (trace s)) (regs s) RCC_CR \<and>
       trace s' =
         trace s @ [Rd RCC_CR cr, Wr RCC_CFGR (pll_src OR pll_mul), Wr RCC_CR (cr OR RCC_CR_HSEON)]
         @ p1 @ [Wr RCC_CR ((cr OR RCC_CR_HSEON) OR RCC_CR_PLLON)]
         @ p2 @ [Wr RCC_CFGR (((pll_src OR pll_mul) AND NOT RCC_CFGR_SW) OR RCC_CFGR_SW_PLL)]
         @ p3 \<and>
       polls RCC_CR (\<lambda>v. (v AND RCC_CR_HSERDY) \<noteq> 0) p1 \<and>
       polls RCC_CR (\<lambda>v. (v AND RCC_CR_PLLRDY) \<noteq> 0) p2 \<and>
       polls RCC_CFGR (\<lambda>v. (v AND RCC_CFGR_SWS) = RCC_CFGR_SWS_PLL) p3 \<and>
       regs s' = (regs s)
         (RCC_CFGR := pll_src OR pll_mul,
          RCC_CR := cr OR RCC_CR_HSEON,
          RCC_CR := (cr OR RCC_CR_HSEON) OR RCC_CR_PLLON,
          RCC_CFGR := ((pll_src OR pll_mul) AND NOT RCC_CFGR_SW) OR RCC_CFGR_SW_PLL))"
proof -
  have args: "sysclk_src = RCC_CLKSRC_PLL h \<and> pll_src = RCC_PLLSRC_HSE h"
    using assms by (auto simp: rcc_clk_init_def split: if_splits)
  define cr where "cr = hw (length (trace s)) (regs s) RCC_CR"
  define s1 where "s1 = s\<lparr>trace := trace s @ [Rd RCC_CR cr]\<rparr>"
  define s2 where "s2 = reg_write RCC_CFGR (pll_src OR pll_mul) s1"
  define s3 where "s3 = reg_write RCC_CR (cr OR RCC_CR_HSEON) s2"
  have rd: "reg_read hw RCC_CR s = (cr, s1)"
    by (simp add: reg_read_def cr_def s1_def Let_def)
  from assms args rd obtain s4 where
    w1: "busy_wait hw RCC_CR (\<lambda>v. (v AND RCC_CR_HSERDY) = 0) s3 = Some s4"
    by (auto simp: rcc_clk_init_def Let_def s2_def s3_def split: option.splits)
  define s5 where "s5 = reg_write RCC_CR ((cr OR RCC_CR_HSEON) OR RCC_CR_PLLON) s4"
  from assms args rd w1 obtain s6 where
    w2: "busy_wait hw RCC_CR (\<lambda>v. (v AND RCC_CR_PLLRDY) = 0) s5 = Some s6"
    by (auto simp: rcc_clk_init_def Let_def s2_def s3_def s5_def split: option.splits)
  define s7 where "s7 = reg_write RCC_CFGR
      (((pll_src OR pll_mul) AND NOT RCC_CFGR_SW) OR RCC_CFGR_SW_PLL) s6"
  from assms args rd w1 w2 have
    w3: "busy_wait hw RCC_CFGR (\<lambda>v. (v AND RCC_CFGR_SWS) \<noteq> RCC_CFGR_SWS_PLL) s7 = Some s'"
    by (auto simp: rcc_clk_init_def Let_def s2_def s3_def s5_def s7_def split: option.splits)
  from busy_wait_Some [OF w1] obtain p1 where
    r4: "regs s4 = regs s3" and t4: "trace s4 = trace s3 @ p1"
    and p1: "polls RCC_CR (\<lambda>v. (v AND RCC_CR_HSERDY) \<noteq> 0) p1" by auto
  from busy_wait_Some [OF w2] obtain p2 where
    r6: "regs s6 = regs s5" and t6: "trace s6 = trace s5 @ p2"
    and p2: "polls RCC_CR (\<lambda>v. (v AND RCC_CR_PLLRDY) \<noteq> 0) p2" by auto
  from busy_wait_Some [OF w3] obtain p3 where
    r8: "regs s' = regs s7" and t8: "trace s' = trace s7 @ p3"
    and p3: "polls RCC_CFGR (\<lambda>v. (v AND RCC_CFGR_SWS) = RCC_CFGR_SWS_PLL) p3" by auto
  have tr: "trace s' =
         trace s @ [Rd RCC_CR cr, Wr RCC_CFGR (pll_src OR pll_mul), Wr RCC_CR (cr OR RCC_CR_HSEON)]
         @ p1 @ [Wr RCC_CR ((cr OR RCC_CR_HSEON) OR RCC_CR_PLLON)]
         @ p2 @ [Wr RCC_CFGR (((pll_src OR pll_mul) AND NOT RCC_CFGR_SW) OR RCC_CFGR_SW_PLL)]
         @ p3"
    by (simp add: t8 s7_def t6 s5_def t4 s3_def s2_def s1_def reg_write_def)
  have rg: "regs s' = (regs s)
         (RCC_CFGR := pll_src OR pll_mul,
          RCC_CR := cr OR RCC_CR_HSEON,
          RCC_CR := (cr OR RCC_CR_HSEON) OR RCC_CR_PLLON,
          RCC_CFGR := ((pll_src OR pll_mul) AND NOT RCC_CFGR_SW) OR RCC_CFGR_SW_PLL)"
    by (simp add: r8 s7_def r6 s5_def r4 s3_def s2_def s1_def reg_write_def)
  show ?thesis
    using args tr rg p1 p2 p3 cr_def by blast
qed

lemma rcc_clk_init_spins1:
  assumes "\<forall>t. (hw t ((regs s)(RCC_CFGR := RCC_PLLSRC_HSE h OR pll_mul,
                   RCC_CR := hw (length (trace s)) (regs s) RCC_CR OR RCC_CR_HSEON)) RCC_CR
               AND RCC_CR_HSERDY) = 0"
  shows "rcc_clk_init hw h (RCC_CLKSRC_PLL h) (RCC_PLLSRC_HSE h) pll_mul s = None"
  using assms
  by (simp add: rcc_clk_init_def Let_def reg_read_def reg_write_def busy_wait_never)

lemma rcc_clk_init_spins2:
  assumes "\<forall>t. (hw t ((regs s)(RCC_CFGR := RCC_PLLSRC_HSE h OR pll_mul,
                   RCC_CR := (hw (length (trace s)) (regs s) RCC_CR OR RCC_CR_HSEON)
                             OR RCC_CR_PLLON)) RCC_CR
               AND RCC_CR_PLLRDY) = 0"
  shows "rcc_clk_init hw h (RCC_CLKSRC_PLL h) (RCC_PLLSRC_HSE h) pll_mul s = None"
proof (rule ccontr)
  assume "rcc_clk_init hw h (RCC_CLKSRC_PLL h) (RCC_PLLSRC_HSE h) pll_mul s \<noteq> None"
  then obtain res where
    res: "rcc_clk_init hw h (RCC_CLKSRC_PLL h) (RCC_PLLSRC_HSE h) pll_mul s = Some res" by auto
  define cr where "cr = hw (length (trace s)) (regs s) RCC_CR"
  define s3 where "s3 = reg_write RCC_CR (cr OR RCC_CR_HSEON)
     (reg_write RCC_CFGR (RCC_PLLSRC_HSE h OR pll_mul) (s\<lparr>trace := trace s @ [Rd RCC_CR cr]\<rparr>))"
  from res obtain s4 where
    w1: "busy_wait hw RCC_CR (\<lambda>v. (v AND RCC_CR_HSERDY) = 0) s3 = Some s4"
    by (auto simp: rcc_clk_init_def Let_def reg_read_def s3_def cr_def split: option.splits)
  from busy_wait_Some [OF w1] have r4: "regs s4 = regs s3" by simp
  have "busy_wait hw RCC_CR (\<lambda>v. (v AND RCC_CR_PLLRDY) = 0)
          (reg_write RCC_CR ((cr OR RCC_CR_HSEON) OR RCC_CR_PLLON) s4) = None"
    using assms by (intro busy_wait_never) (simp add: reg_write_def r4 s3_def cr_def)
  with res w1 show False
    by (simp add: rcc_clk_init_def Let_def reg_read_def s3_def cr_def)
qed

lemma rcc_clk_init_spins3:
  assumes "\<forall>t. (hw t ((regs s)(RCC_CR := (hw (length (trace s)) (regs s) RCC_CR OR RCC_CR_HSEON)
                             OR RCC_CR_PLLON,
                   RCC_CFGR := ((RCC_PLLSRC_HSE h OR pll_mul) AND NOT RCC_CFGR_SW)
                               OR RCC_CFGR_SW_PLL)) RCC_CFGR
               AND RCC_CFGR_SWS) \<noteq> RCC_CFGR_SWS_PLL"
  shows "rcc_clk_init hw h (RCC_CLKSRC_PLL h) (RCC_PLLSRC_HSE h) pll_mul s = None"
proof (rule ccontr)
  assume "rcc_clk_init hw h (RCC_CLKSRC_PLL h) (RCC_PLLSRC_HSE h) pll_mul s \<noteq> None"
  then obtain res where
    res: "rcc_clk_init hw h (RCC_CLKSRC_PLL h) (RCC_PLLSRC_HSE h) pll_mul s = Some res" by auto
  define cr where "cr = hw (length (trace s)) (regs s) RCC_CR"
  define s3 where "s3 = reg_write RCC_CR (cr OR RCC_CR_HSEON)
     (reg_write RCC_CFGR (RCC_PLLSRC_HSE h OR pll_mul) (s\<lparr>trace := trace s @ [Rd RCC_CR cr]\<rparr>))"
  from res obtain s4 where
    w1: "busy_wait hw RCC_CR (\<lambda>v. (v AND RCC_CR_HSERDY) = 0) s3 = Some s4"
    by (auto simp: rcc_clk_init_def Let_def reg_read_def s3_def cr_def split: option.splits)
  define s5 where "s5 = reg_write RCC_CR ((cr OR RCC_CR_HSEON) OR RCC_CR_PLLON) s4"
  from res w1 obtain s6 where
    w2: "busy_wait hw RCC_CR (\<lambda>v. (v AND RCC_CR_PLLRDY) = 0) s5 = Some s6"
    by (auto simp: rcc_clk_init_def Let_def reg_read_def s3_def s5_def cr_def
        split: option.splits)
  from busy_wait_Some [OF w1] have r4: "regs s4 = regs s3" by simp
  from busy_wait_Some [OF w2] have r6: "regs s6 = regs s5" by simp
  have addr: "RCC_CR \<noteq> RCC_CFGR" by (simp add: RCC_CR_def RCC_CFGR_def)
  have "regs (reg_write RCC_CFGR
            (((RCC_PLLSRC_HSE h OR pll_mul) AND NOT RCC_CFGR_SW) OR RCC_CFGR_SW_PLL) s6) =
        (regs s)(RCC_CR := (cr OR RCC_CR_HSEON) OR RCC_CR_PLLON,
                 RCC_CFGR := ((RCC_PLLSRC_HSE h OR pll_mul) AND NOT RCC_CFGR_SW)
                             OR RCC_CFGR_SW_PLL)"
    using addr by (auto simp: reg_write_def r6 s5_def r4 s3_def fun_eq_iff)
  with assms have "busy_wait hw RCC_CFGR (\<lambda>v. (v AND RCC_CFGR_SWS) \<noteq> RCC_CFGR_SWS_PLL)
          (reg_write RCC_CFGR
            (((RCC_PLLSRC_HSE h OR pll_mul) AND NOT RCC_CFGR_SW) OR RCC_CFGR_SW_PLL) s6) = None"
    by (intro busy_wait_never) (simp add: cr_def)
  with res w1 w2 show False
    by (simp add: rcc_clk_init_def Let_def reg_read_def s3_def s5_def cr_def)
qed

lemma rcc_clk_init_returns:
  assumes hse: "\<forall>t r. \<exists>k. (hw (t + k) r RCC_CR AND RCC_CR_HSERDY) \<noteq> 0"
    and pll: "\<forall>t r. \<exists>k. (hw (t + k) r RCC_CR AND RCC_CR_PLLRDY) \<noteq> 0"
    and sws: "\<forall>t r. \<exists>k. (hw (t + k) r RCC_CFGR AND RCC_CFGR_SWS) = RCC_CFGR_SWS_PLL"
  shows "\<exists>s'. rcc_clk_init hw h (RCC_CLKSRC_PLL h) (RCC_PLLSRC_HSE h) pll_mul s
           = Some (Returned s')"
proof -
  have w1: "\<exists>s'. busy_wait hw RCC_CR (\<lambda>v. (v AND RCC_CR_HSERDY) = 0) s = Some s'" for s
    using hse busy_wait_returns [of "\<lambda>v. (v AND RCC_CR_HSERDY) = 0" hw s _ RCC_CR] by blast
  have w2: "\<exists>s'. busy_wait hw RCC_CR (\<lambda>v. (v AND RCC_CR_PLLRDY) = 0) s = Some s'" for s
    using pll busy_wait_returns [of "\<lambda>v. (v AND RCC_CR_PLLRDY) = 0" hw s _ RCC_CR] by blast
  have w3: "\<exists>s'. busy_wait hw RCC_CFGR (\<lambda>v. (v AND RCC_CFGR_SWS) \<noteq> RCC_CFGR_SWS_PLL) s
      = Some s'" for s
    using sws
      busy_wait_returns [of "\<lambda>v. (v AND RCC_CFGR_SWS) \<noteq> RCC_CFGR_SWS_PLL" hw s _ RCC_CFGR]
    by blast
  show ?thesis
    unfolding rcc_clk_init_def Let_def
    by (auto split: prod.splits option.splits simp: w1 w2 w3)
      (metis option.distinct(1) w1 w2 w3)+
qed

lemma hseon_keeps_pllon:
  fixes cr :: u32
  shows "((cr OR RCC_CR_HSEON) AND RCC_CR_PLLON) = (cr AND RCC_CR_PLLON)"
proof -
  have "((cr OR RCC_CR_HSEON) AND RCC_CR_PLLON)
      = (cr AND RCC_CR_PLLON) OR (RCC_CR_HSEON AND RCC_CR_PLLON)"
    by (intro bit_word_eqI) (auto simp: bit_and_iff bit_or_iff)
  also have "RCC_CR_HSEON AND RCC_CR_PLLON = 0"
    by (simp add: RCC_CR_HSEON_def RCC_CR_PLLON_def)
  finally show ?thesis by simp
qed

lemma only_after_polls:
  "polls a ok p \<Longrightarrow> \<forall>v. ok v \<longrightarrow> c (Rd a v) \<Longrightarrow> \<forall>a v. \<not> w (Rd a v) \<Longrightarrow>
   only_after c w (p @ rest)"
proof (induction a ok p rule: polls.induct)
  case (2 a ok a' v es)
  then show ?case by (cases "es = []") auto
qed simp_all

lemma only_after_reads:
  "polls a ok p \<Longrightarrow> \<forall>a v. \<not> w (Rd a v) \<Longrightarrow> only_after c w rest \<Longrightarrow>
   only_after c w (p @ rest)"
proof (induction a ok p rule: polls.induct)
  case (2 a ok a' v es)
  then show ?case by (cases "es = []") auto
qed simp_all

lemma rcc_clk_init_pllon_gated:
  assumes p1: "polls RCC_CR (\<lambda>v. (v AND RCC_CR_HSERDY) \<noteq> 0) p1"
    and off: "(cr AND RCC_CR_PLLON) = 0"
  shows "only_after (reads_as RCC_CR (\<lambda>v. (v AND RCC_CR_HSERDY) \<noteq> 0))
           (writes_as RCC_CR (\<lambda>v. (v AND RCC_CR_PLLON) \<noteq> 0))
           ([Rd RCC_CR cr, Wr RCC_CFGR cfgr, Wr RCC_CR (cr OR RCC_CR_HSEON)] @ p1 @ rest)"
proof -
  have "only_after (reads_as RCC_CR (\<lambda>v. (v AND RCC_CR_HSERDY) \<noteq> 0))
           (writes_as RCC_CR (\<lambda>v. (v AND RCC_CR_PLLON) \<noteq> 0)) (p1 @ rest)"
    by (rule only_after_polls [OF p1]) (simp_all add: reads_as_def writes_as_def)
  moreover have "RCC_CFGR \<noteq> RCC_CR" by (simp add: RCC_CR_def RCC_CFGR_def)
  ultimately show ?thesis
    using off by (simp add: reads_as_def writes_as_def hseon_keeps_pllon)
qed

lemma rcc_clk_init_sw_gated:
  assumes p1: "polls RCC_CR ok1 p1"
    and p2: "polls RCC_CR (\<lambda>v. (v AND RCC_CR_PLLRDY) \<noteq> 0) p2"
    and sw: "(cfgr AND RCC_CFGR_SW) \<noteq> RCC_CFGR_SW_PLL"
  shows "only_after (reads_as RCC_CR (\<lambda>v. (v AND RCC_CR_PLLRDY) \<noteq> 0))
           (writes_as RCC_CFGR (\<lambda>v. (v AND RCC_CFGR_SW) = RCC_CFGR_SW_PLL))
           ([Rd RCC_CR cr, Wr RCC_CFGR cfgr, Wr RCC_CR x] @ p1 @ [Wr RCC_CR y] @ p2 @ rest)"
proof -
  have ne: "RCC_CR \<noteq> RCC_CFGR" by (simp add: RCC_CR_def RCC_CFGR_def)
  have "only_after (reads_as RCC_CR (\<lambda>v. (v AND RCC_CR_PLLRDY) \<noteq> 0))
           (writes_as RCC_CFGR (\<lambda>v. (v AND RCC_CFGR_SW) = RCC_CFGR_SW_PLL)) (p2 @ rest)"
    by (rule only_after_polls [OF p2]) (simp_all add: reads_as_def writes_as_def)
  then have "only_after (reads_as RCC_CR (\<lambda>v. (v AND RCC_CR_PLLRDY) \<noteq> 0))
           (writes_as RCC_CFGR (\<lambda>v. (v AND RCC_CFGR_SW) = RCC_CFGR_SW_PLL))
           ([Wr RCC_CR y] @ p2 @ rest)"
    using ne by (simp add: reads_as_def writes_as_def)
  then have "only_after (reads_as RCC_CR (\<lambda>v. (v AND RCC_CR_PLLRDY) \<noteq> 0))
           (writes_as RCC_CFGR (\<lambda>v. (v AND RCC_CFGR_SW) = RCC_CFGR_SW_PLL))
           (p1 @ [Wr RCC_CR y] @ p2 @ rest)"
    by (intro only_after_reads [OF p1]) (simp_all add: writes_as_def)
  then show ?thesis
    using ne sw by (simp add: reads_as_def writes_as_def)
qed

subsection \<open>The clock initialiser\<close>

text \<open>
  Claim C1 says that the PLL-enable bit is written to CR only after a read of CR has
  shown HSERDY, and that the SW field of CFGR is switched to PLL only after a read has
  shown PLLRDY. The first two writes of \<^verbatim>\<open>rcc_clk_init\<close> pass bits through unmasked. With
  \<^verbatim>\<open>pll_mul = 0x2\<close> the first write of CFGR stores \<^verbatim>\<open>0x10002\<close>, whose SW field is PLL,
  before any read has shown PLLRDY. With PLLON set in CR at entry the first write of CR
  writes PLLON back before any read has shown HSERDY.
\<close>

theorem rcc_clk_init_steps_in_order_counterexample:
  "rcc_clk_init hw_follow rcc_h0 0x2 (push_bit 16 0x1) 0x2 zeroed =
     Some (Returned
       \<lparr>regs = (regs zeroed)
          (RCC_CFGR := 0x10002, RCC_CR := 0x10000, RCC_CR := 0x1010000, RCC_CFGR := 0x10002),
        trace =
          [Rd RCC_CR 0, Wr RCC_CFGR 0x10002, Wr RCC_CR 0x10000,
           Rd RCC_CR 0x10000, Rd RCC_CR 0x10000, Rd RCC_CR 0x30000,
           Wr RCC_CR 0x1010000, Rd RCC_CR 0x3030000,
           Wr RCC_CFGR 0x10002, Rd RCC_CFGR 0x1000A]\<rparr>) \<and>
   \<not> only_after (reads_as RCC_CR (\<lambda>v. (v AND RCC_CR_PLLRDY) \<noteq> 0))
          (writes_as RCC_CFGR (\<lambda>v. (v AND RCC_CFGR_SW) = RCC_CFGR_SW_PLL))
          [Rd RCC_CR 0, Wr RCC_CFGR 0x10002, Wr RCC_CR 0x10000,
           Rd RCC_CR 0x10000, Rd RCC_CR 0x10000, Rd RCC_CR 0x30000,
           Wr RCC_CR 0x1010000, Rd RCC_CR 0x3030000,
           Wr RCC_CFGR 0x10002, Rd RCC_CFGR 0x1000A] \<and>
   rcc_clk_init hw_follow rcc_h0 0x2 (push_bit 16 0x1) (push_bit 18 0x7)
       (zeroed\<lparr>regs := (regs zeroed)(RCC_CR := RCC_CR_PLLON)\<rparr>) =
     Some (Returned
       \<lparr>regs = (regs zeroed)
          (RCC_CR := 0x1000000, RCC_CFGR := 0x1D0000, RCC_CR := 0x3010000,
           RCC_CR := 0x3010000, RCC_CFGR := 0x1D0002),
        trace =
          [Rd RCC_CR 0x3000000, Wr RCC_CFGR 0x1D0000, Wr RCC_CR 0x3010000,
           Rd RCC_CR 0x3010000, Rd RCC_CR 0x3010000, Rd RCC_CR 0x3030000,
           Wr RCC_CR 0x3010000, Rd RCC_CR 0x3030000,
           Wr RCC_CFGR 0x1D0002, Rd RCC_CFGR 0x1D000A]\<rparr>) \<and>
   \<not> only_after (reads_as RCC_CR (\<lambda>v. (v AND RCC_CR_HSERDY) \<noteq> 0))
          (writes_as RCC_CR (\<lambda>v. (v AND RCC_CR_PLLON) \<noteq> 0))
          [Rd RCC_CR 0x3000000, Wr RCC_CFGR 0x1D0000, Wr RCC_CR 0x3010000,
           Rd RCC_CR 0x3010000, Rd RCC_CR 0x3010000, Rd RCC_CR 0x3030000,
           Wr RCC_CR 0x3010000, Rd RCC_CR 0x3030000,
           Wr RCC_CFGR 0x1D0002, Rd RCC_CFGR 0x1D000A]"
  by (simp add: rcc_clk_init_def rcc_h0_def zeroed_def reg_read_def reg_write_def Let_def
      busy_wait_exit busy_wait_again hw_follow_def rcc_consts reads_as_def writes_as_def)

text \<open>
  Claim C1, as the code has it. In \<^verbatim>\<open>rcc_clk_init\<close> every step waits for the hardware
  to confirm the one before. Whenever the call ends at all (with valid arguments) it has
  returned, and its bus accesses are, in this order: a read of CR; the write of CFGR with
  \<^verbatim>\<open>pll_src | pll_mul\<close>; the write of CR with HSEON added to what was read; reads of CR of
  which the last one, and no earlier one, shows HSERDY; only then the write of CR with
  PLLON added; reads of CR of which the last one, and no earlier one, shows PLLRDY; only
  then the write of CFGR with the SW field replaced by PLL; reads of CFGR of which the
  last one, and no earlier one, shows the SWS field equal to PLL; and nothing after. The
  write of CR with HSEON leaves the PLL-enable bit as the first read found it. So when
  PLLON was clear at entry, no write of CR with PLLON set comes before a read of CR that
  shows HSERDY; and when the SW bits of \<^verbatim>\<open>pll_src | pll_mul\<close> are not PLL, no write of CFGR
  with SW equal to PLL comes before a read of CR that shows PLLRDY. If the chip never
  shows HSERDY, or never shows PLLRDY, or never shows SWS equal to PLL, while the
  registers are as the function left them for that wait, the call never returns.
\<close>

theorem rcc_clk_init_steps_in_order:
  "let cr = hw (length (trace s)) (regs s) RCC_CR;
       cfgr = RCC_PLLSRC_HSE h OR pll_mul;
       cfgr' = (cfgr AND NOT RCC_CFGR_SW) OR RCC_CFGR_SW_PLL;
       run = rcc_clk_init hw h (RCC_CLKSRC_PLL h) (RCC_PLLSRC_HSE h) pll_mul s
   in (\<forall>res. run = Some res \<longrightarrow>
         (\<exists>s' p1 p2 p3.
            res = Returned s' \<and>
            trace s' =
              trace s @ [Rd RCC_CR cr, Wr RCC_CFGR cfgr, Wr RCC_CR (cr OR RCC_CR_HSEON)]
              @ p1 @ [Wr RCC_CR ((cr OR RCC_CR_HSEON) OR RCC_CR_PLLON)]
              @ p2 @ [Wr RCC_CFGR cfgr']
              @ p3 \<and>
            polls RCC_CR (\<lambda>v. (v AND RCC_CR_HSERDY) \<noteq> 0) p1 \<and>
            polls RCC_CR (\<lambda>v. (v AND RCC_CR_PLLRDY) \<noteq> 0) p2 \<and>
            polls RCC_CFGR (\<lambda>v. (v AND RCC_CFGR_SWS) = RCC_CFGR_SWS_PLL) p3 \<and>
            ((cr AND RCC_CR_PLLON) = 0 \<longrightarrow>
               only_after (reads_as RCC_CR (\<lambda>v. (v AND RCC_CR_HSERDY) \<noteq> 0))
                 (writes_as RCC_CR (\<lambda>v. (v AND RCC_CR_PLLON) \<noteq> 0))
                 (drop (length (trace s)) (trace s'))) \<and>
            ((cfgr AND RCC_CFGR_SW) \<noteq> RCC_CFGR_SW_PLL \<longrightarrow>
               only_after (reads_as RCC_CR (\<lambda>v. (v AND RCC_CR_PLLRDY) \<noteq> 0))
                 (writes_as RCC_CFGR (\<lambda>v. (v AND RCC_CFGR_SW) = RCC_CFGR_SW_PLL))
                 (drop (length (trace s)) (trace s'))))) \<and>
      ((cr OR RCC_CR_HSEON) AND RCC_CR_PLLON) = (cr AND RCC_CR_PLLON) \<and>
      ((\<forall>t. (hw t ((regs s)(RCC_CFGR := cfgr, RCC_CR := cr OR RCC_CR_HSEON)) RCC_CR
              AND RCC_CR_HSERDY) = 0) \<longrightarrow> run = None) \<and>
      ((\<forall>t. (hw t ((regs s)(RCC_CFGR := cfgr,
                              RCC_CR := (cr OR RCC_CR_HSEON) OR RCC_CR_PLLON)) RCC_CR
              AND RCC_CR_PLLRDY) = 0) \<longrightarrow> run = None) \<and>
      ((\<forall>t. (hw t ((regs s)(RCC_CR := (cr OR RCC_CR_HSEON) OR RCC_CR_PLLON,
                              RCC_CFGR := cfgr')) RCC_CFGR
              AND RCC_CFGR_SWS) \<noteq> RCC_CFGR_SWS_PLL) \<longrightarrow> run = None)"
proof -
  define cr where "cr = hw (length (trace s)) (regs s) RCC_CR"
  define cfgr where "cfgr = RCC_PLLSRC_HSE h OR pll_mul"
  have "\<exists>s' p1 p2 p3.
            res = Returned s' \<and>
            trace s' =
              trace s @ [Rd RCC_CR cr, Wr RCC_CFGR cfgr, Wr RCC_CR (cr OR RCC_CR_HSEON)]
              @ p1 @ [Wr RCC_CR ((cr OR RCC_CR_HSEON) OR RCC_CR_PLLON)]
              @ p2 @ [Wr RCC_CFGR ((cfgr AND NOT RCC_CFGR_SW) OR RCC_CFGR_SW_PLL)]
              @ p3 \<and>
            polls RCC_CR (\<lambda>v. (v AND RCC_CR_HSERDY) \<noteq> 0) p1 \<and>
            polls RCC_CR (\<lambda>v. (v AND RCC_CR_PLLRDY) \<noteq> 0) p2 \<and>
            polls RCC_CFGR (\<lambda>v. (v AND RCC_CFGR_SWS) = RCC_CFGR_SWS_PLL) p3 \<and>
            ((cr AND RCC_CR_PLLON) = 0 \<longrightarrow>
               only_after (reads_as RCC_CR (\<lambda>v. (v AND RCC_CR_HSERDY) \<noteq> 0))
                 (writes_as RCC_CR (\<lambda>v. (v AND RCC_CR_PLLON) \<noteq> 0))
                 (drop (length (trace s)) (trace s'))) \<and>
            ((cfgr AND RCC_CFGR_SW) \<noteq> RCC_CFGR_SW_PLL \<longrightarrow>
               only_after (reads_as RCC_CR (\<lambda>v. (v AND RCC_CR_PLLRDY) \<noteq> 0))
                 (writes_as RCC_CFGR (\<lambda>v. (v AND RCC_CFGR_SW) = RCC_CFGR_SW_PLL))
                 (drop (length (trace s)) (trace s')))"
    if run: "rcc_clk_init hw h (RCC_CLKSRC_PLL h) (RCC_PLLSRC_HSE h) pll_mul s = Some res"
    for res
  proof -
    from run obtain s' where r: "res = Returned s'"
      by (auto simp: rcc_clk_init_def Let_def split: option.splits prod.splits)
    from rcc_clk_init_Returned [OF run [unfolded r]] obtain p1 p2 p3 where
      tr: "trace s' =
              trace s @ [Rd RCC_CR cr, Wr RCC_CFGR cfgr, Wr RCC_CR (cr OR RCC_CR_HSEON)]
              @ p1 @ [Wr RCC_CR ((cr OR RCC_CR_HSEON) OR RCC_CR_PLLON)]
              @ p2 @ [Wr RCC_CFGR ((cfgr AND NOT RCC_CFGR_SW) OR RCC_CFGR_SW_PLL)]
              @ p3"
      and p1: "polls RCC_CR (\<lambda>v. (v AND RCC_CR_HSERDY) \<noteq> 0) p1"
      and p2: "polls RCC_CR (\<lambda>v. (v AND RCC_CR_PLLRDY) \<noteq> 0) p2"
      and p3: "polls RCC_CFGR (\<lambda>v. (v AND RCC_CFGR_SWS) = RCC_CFGR_SWS_PLL) p3"
      unfolding cr_def cfgr_def by blast
    have part: "drop (length (trace s)) (trace s') =
        [Rd RCC_CR cr, Wr RCC_CFGR cfgr, Wr RCC_CR (cr OR RCC_CR_HSEON)]
        @ p1 @ ([Wr RCC_CR ((cr OR RCC_CR_HSEON) OR RCC_CR_PLLON)]
        @ p2 @ ([Wr RCC_CFGR ((cfgr AND NOT RCC_CFGR_SW) OR RCC_CFGR_SW_PLL)] @ p3))"
      by (simp add: tr)
    have g1: "only_after (reads_as RCC_CR (\<lambda>v. (v AND RCC_CR_HSERDY) \<noteq> 0))
      (writes_as RCC_CR (\<lambda>v. (v AND RCC_CR_PLLON) \<noteq> 0))
                 (drop (length (trace s)) (trace s'))"
      if "(cr AND RCC_CR_PLLON) = 0"
      unfolding part by (rule rcc_clk_init_pllon_gated [OF p1 that])
    have g2: "only_after (reads_as RCC_CR (\<lambda>v. (v AND RCC_CR_PLLRDY) \<noteq> 0))
      (writes_as RCC_CFGR (\<lambda>v. (v AND RCC_CFGR_SW) = RCC_CFGR_SW_PLL))
                 (drop (length (trace s)) (trace s'))"
      if "(cfgr AND RCC_CFGR_SW) \<noteq> RCC_CFGR_SW_PLL"
      unfolding part using rcc_clk_init_sw_gated [OF p1 p2 that] by simp
    from r tr p1 p2 p3 g1 g2 show ?thesis by blast
  qed
  then show ?thesis
    unfolding Let_def cr_def cfgr_def
    using rcc_clk_init_spins1 [of hw s h pll_mul] rcc_clk_init_spins2 [of hw s h pll_mul]
      rcc_clk_init_spins3 [of hw s h pll_mul]
      hseon_keeps_pllon [of "hw (length (trace s)) (regs s) RCC_CR"]
    by blast
qed

theorem rcc_clk_init_steps_in_order_witness:
  "(\<exists>s' p1 p2 p3.
      rcc_clk_init hw_follow rcc_h0 0x2 (push_bit 16 0x1) (push_bit 18 0x7) zeroed
        = Some (Returned s') \<and>
      trace s' =
        [Rd RCC_CR 0, Wr RCC_CFGR 0x1D0000, Wr RCC_CR 0x10000]
        @ p1 @ [Wr RCC_CR 0x1010000]
        @ p2 @ [Wr RCC_CFGR 0x1D0002]
        @ p3 \<and>
      polls RCC_CR (\<lambda>v. (v AND RCC_CR_HSERDY) \<noteq> 0) p1 \<and>
      polls RCC_CR (\<lambda>v. (v AND RCC_CR_PLLRDY) \<noteq> 0) p2 \<and>
      polls RCC_CFGR (\<lambda>v. (v AND RCC_CFGR_SWS) = RCC_CFGR_SWS_PLL) p3 \<and>
      (0 AND RCC_CR_PLLON) = 0 \<and>
      only_after (reads_as RCC_CR (\<lambda>v. (v AND RCC_CR_HSERDY) \<noteq> 0))
        (writes_as RCC_CR (\<lambda>v. (v AND RCC_CR_PLLON) \<noteq> 0)) (trace s') \<and>
      (0x1D0000 AND RCC_CFGR_SW) \<noteq> RCC_CFGR_SW_PLL \<and>
      only_after (reads_as RCC_CR (\<lambda>v. (v AND RCC_CR_PLLRDY) \<noteq> 0))
        (writes_as RCC_CFGR (\<lambda>v. (v AND RCC_CFGR_SW) = RCC_CFGR_SW_PLL)) (trace s')) \<and>
   rcc_clk_init (hw_stuck 0) rcc_h0 0x2 (push_bit 16 0x1) (push_bit 18 0x7) zeroed = None \<and>
   rcc_clk_init (hw_stuck RCC_CR_HSERDY) rcc_h0 0x2 (push_bit 16 0x1) (push_bit 18 0x7) zeroed
     = None \<and>
   rcc_clk_init (hw_stuck (RCC_CR_HSERDY OR RCC_CR_PLLRDY)) rcc_h0 0x2 (push_bit 16 0x1)
     (push_bit 18 0x7) zeroed = None"
proof -
  have run: "\<exists>s'. rcc_clk_init hw_follow rcc_h0 0x2 (push_bit 16 0x1) (push_bit 18 0x7) zeroed
      = Some (Returned s')"
    by (simp add: rcc_clk_init_def rcc_h0_def zeroed_def reg_read_def reg_write_def Let_def
        busy_wait_exit busy_wait_again hw_follow_def rcc_consts)
  have stuck:
    "rcc_clk_init (hw_stuck 0) rcc_h0 0x2 (push_bit 16 0x1) (push_bit 18 0x7) zeroed = None \<and>
     rcc_clk_init (hw_stuck RCC_CR_HSERDY) rcc_h0 0x2 (push_bit 16 0x1) (push_bit 18 0x7) zeroed
       = None \<and>
     rcc_clk_init (hw_stuck (RCC_CR_HSERDY OR RCC_CR_PLLRDY)) rcc_h0 0x2 (push_bit 16 0x1)
       (push_bit 18 0x7) zeroed = None"
    using
      rcc_clk_init_steps_in_order [of "hw_stuck 0" zeroed rcc_h0 "push_bit 18 0x7"]
      rcc_clk_init_steps_in_order [of "hw_stuck RCC_CR_HSERDY" zeroed rcc_h0 "push_bit 18 0x7"]
      rcc_clk_init_steps_in_order
        [of "hw_stuck (RCC_CR_HSERDY OR RCC_CR_PLLRDY)" zeroed rcc_h0 "push_bit 18 0x7"]
    by (simp add: Let_def rcc_h0_def hw_stuck_def RCC_CR_HSERDY_def RCC_CR_PLLRDY_def
        RCC_CFGR_SWS_def RCC_CFGR_SWS_PLL_def)
  from run obtain s' where
    s': "rcc_clk_init hw_follow rcc_h0 0x2 (push_bit 16 0x1) (push_bit 18 0x7) zeroed
      = Some (Returned s')" by blast
  have s'': "rcc_clk_init hw_follow rcc_h0 (RCC_CLKSRC_PLL rcc_h0) (RCC_PLLSRC_HSE rcc_h0)
      (push_bit 18 0x7) zeroed = Some (Returned s')"
    using s' by (simp add: rcc_h0_def)
  have cr0: "hw_follow 0 (regs zeroed) RCC_CR = 0"
    by (simp add: hw_follow_def zeroed_def rcc_consts)
  have z: "trace zeroed = []" by (simp add: zeroed_def)
  have off: "(0 AND RCC_CR_PLLON) = 0"
    and sw: "(0x1D0000 AND RCC_CFGR_SW) \<noteq> RCC_CFGR_SW_PLL"
    by (simp_all add: rcc_consts)
  note inst = rcc_clk_init_steps_in_order
    [of hw_follow zeroed rcc_h0 "push_bit 18 0x7", unfolded Let_def,
      THEN conjunct1, rule_format, OF s'']
  have "\<exists>p1 p2 p3.
      trace s' =
        [Rd RCC_CR 0, Wr RCC_CFGR 0x1D0000, Wr RCC_CR 0x10000]
        @ p1 @ [Wr RCC_CR 0x1010000]
        @ p2 @ [Wr RCC_CFGR 0x1D0002]
        @ p3 \<and>
      polls RCC_CR (\<lambda>v. (v AND RCC_CR_HSERDY) \<noteq> 0) p1 \<and>
      polls RCC_CR (\<lambda>v. (v AND RCC_CR_PLLRDY) \<noteq> 0) p2 \<and>
      polls RCC_CFGR (\<lambda>v. (v AND RCC_CFGR_SWS) = RCC_CFGR_SWS_PLL) p3 \<and>
      only_after (reads_as RCC_CR (\<lambda>v. (v AND RCC_CR_HSERDY) \<noteq> 0))
        (writes_as RCC_CR (\<lambda>v. (v AND RCC_CR_PLLON) \<noteq> 0)) (trace s') \<and>
      only_after (reads_as RCC_CR (\<lambda>v. (v AND RCC_CR_PLLRDY) \<noteq> 0))
        (writes_as RCC_CFGR (\<lambda>v. (v AND RCC_CFGR_SW) = RCC_CFGR_SW_PLL)) (trace s')"
    using inst
    by (simp add: cr0 z rcc_h0_def RCC_CR_HSEON_def RCC_CR_PLLON_def RCC_CFGR_SW_def
        RCC_CFGR_SW_PLL_def)
  with s' off sw stuck show ?thesis by blast
qed

text \<open>
  Claim C2. When \<^verbatim>\<open>sysclk_src\<close> is not \<^verbatim>\<open>RCC_CLKSRC_PLL\<close> or \<^verbatim>\<open>pll_src\<close> is not
  \<^verbatim>\<open>RCC_PLLSRC_HSE\<close>, \<^verbatim>\<open>rcc_clk_init\<close> stops at its assertion in the very state it was
  called in: no register has changed and no bus access has been made.
\<close>

theorem rcc_clk_init_assert_touches_nothing:
  assumes "sysclk_src \<noteq> RCC_CLKSRC_PLL h \<or> pll_src \<noteq> RCC_PLLSRC_HSE h"
  shows "rcc_clk_init hw h sysclk_src pll_src pll_mul s = Some (Assert_failed s)"
  using assms by (auto simp: rcc_clk_init_def)

theorem rcc_clk_init_assert_touches_nothing_witness:
  "0x1 \<noteq> RCC_CLKSRC_PLL rcc_h0 \<and>
   rcc_clk_init hw_follow rcc_h0 0x1 (push_bit 16 0x1) (push_bit 18 0x7) zeroed
     = Some (Assert_failed zeroed) \<and>
   0x0 \<noteq> RCC_PLLSRC_HSE rcc_h0 \<and>
   rcc_clk_init hw_follow rcc_h0 0x2 0x0 (push_bit 18 0x7) zeroed
     = Some (Assert_failed zeroed)"
proof -
  have a: "0x1 \<noteq> RCC_CLKSRC_PLL rcc_h0" by (simp add: rcc_h0_def)
  have b: "0x0 \<noteq> RCC_PLLSRC_HSE rcc_h0" by (simp add: rcc_h0_def)
  show ?thesis
    using a b
      rcc_clk_init_assert_touches_nothing
        [of "0x1" rcc_h0 "push_bit 16 0x1" hw_follow "push_bit 18 0x7" zeroed]
      rcc_clk_init_assert_touches_nothing
        [of "0x2" rcc_h0 "0x0" hw_follow "push_bit 18 0x7" zeroed]
    by simp
qed

subsection \<open>The descriptor table\<close>

lemma inj_dev_num_rcc_h0: "inj (dev_num rcc_h0)"
  by (rule injI) (simp add: rcc_h0_def split: rcc_dev.splits)

lemma inj_prescaler_num_rcc_h0: "inj (prescaler_num rcc_h0)"
  by (rule injI) (simp add: rcc_h0_def split: rcc_prescaler.splits)

lemma rcc_dev_inits_total: "\<exists>e. map_of rcc_dev_inits d = Some e"
  by (cases d) (simp_all add: rcc_dev_inits_def)

lemma rcc_dev_table_at_dev:
  assumes "inj (dev_num h)"
  shows "rcc_dev_table h (dev_num h d) = map_of rcc_dev_inits d"
  using assms
  by (cases d) (simp_all add: rcc_dev_table_def designated_def rcc_dev_inits_def inj_eq)

lemma rcc_dev_inits_entry:
  assumes "(d, e) \<in> set rcc_dev_inits"
  shows "(clk_domain e = APB1 \<or> clk_domain e = APB2) \<and> unat (line_num e) < 32"
  using assms by (auto simp: rcc_dev_inits_def)

lemma rcc_dev_table_entry:
  assumes "rcc_dev_table h n = Some e"
  shows "(clk_domain e = APB1 \<or> clk_domain e = APB2) \<and> unat (line_num e) < 32"
proof (cases "find (\<lambda>(k, v). dev_num h k = n) (rev rcc_dev_inits)")
  case None
  with assms have "e = \<lparr>clk_domain = 0, line_num = 0\<rparr>"
    by (simp add: rcc_dev_table_def designated_def split: if_splits)
  then show ?thesis by (simp add: APB1_def)
next
  case (Some kv)
  then have "kv \<in> set (rev rcc_dev_inits)"
    by (metis find_Some_iff nth_mem)
  then have "kv \<in> set rcc_dev_inits" by simp
  moreover from assms Some have "e = snd kv"
    by (auto simp: rcc_dev_table_def designated_def split: if_splits prod.splits)
  ultimately show ?thesis
    using rcc_dev_inits_entry [of "fst kv" "snd kv"] by simp
qed

lemma enable_regs_at:
  "array_at enable_regs (unat APB1) = Some RCC_APB1ENR"
  "array_at enable_regs (unat APB2) = Some RCC_APB2ENR"
  "array_at reset_regs (unat APB1) = Some RCC_APB1RSTR"
  "array_at reset_regs (unat APB2) = Some RCC_APB2RSTR"
  by (simp_all add: array_at_def enable_regs_def reset_regs_def APB1_def APB2_def)

lemma bit_BIT: "bit (BIT n) i \<longleftrightarrow> i = n \<and> n < 32"
  by (auto simp: BIT_def bit_simps)

lemma rcc_clk_enable_at_entry:
  assumes "rcc_dev_table h n = Some e"
  shows "\<exists>r. array_at enable_regs (unat (clk_domain e)) = Some r \<and>
     rcc_clk_enable h n s = Returned (reg_set_bits r (BIT (unat (line_num e))) s)"
  using rcc_dev_table_entry [OF assms] assms
  by (auto simp: rcc_clk_enable_def enable_regs_at)

lemma rcc_reset_dev_at_entry:
  assumes "rcc_dev_table h n = Some e"
  shows "\<exists>r. array_at reset_regs (unat (clk_domain e)) = Some r \<and>
     (r = RCC_APB1RSTR \<or> r = RCC_APB2RSTR) \<and>
     rcc_reset_dev h n s =
       Returned (reg_clear_bits r (BIT (unat (line_num e)))
                  (reg_set_bits r (BIT (unat (line_num e))) s))"
  using rcc_dev_table_entry [OF assms] assms
  by (auto simp: rcc_reset_dev_def enable_regs_at)

lemma pulse_restores:
  fixes x :: u32
  assumes "\<not> bit x n"
  shows "(x OR BIT n) AND NOT (BIT n) = x"
  using assms by (intro bit_word_eqI) (auto simp: bit_and_iff bit_or_iff bit_not_iff bit_BIT)

subsection \<open>Peripheral enable and reset\<close>

text \<open>
  Claim C3. For every peripheral \<open>d\<close> of the table, whatever the registers hold,
  \<^verbatim>\<open>rcc_clk_enable\<close> returns, and in the enable register of \<open>d\<close>'s bus domain the bit at
  \<open>d\<close>'s line number is set afterwards, every other bit of that register is as it was,
  and every other register is as it was.
\<close>

theorem rcc_clk_enable_sets_one_bit:
  assumes "inj (dev_num h)"
  shows "\<exists>e r s'.
     map_of rcc_dev_inits d = Some e \<and>
     array_at enable_regs (unat (clk_domain e)) = Some r \<and>
     rcc_clk_enable h (dev_num h d) s = Returned s' \<and>
     bit (regs s' r) (unat (line_num e)) \<and>
     (\<forall>i. i \<noteq> unat (line_num e) \<longrightarrow> bit (regs s' r) i = bit (regs s r) i) \<and>
     (\<forall>a. a \<noteq> r \<longrightarrow> regs s' a = regs s a)"
proof -
  obtain e where e: "map_of rcc_dev_inits d = Some e"
    using rcc_dev_inits_total by blast
  then have t: "rcc_dev_table h (dev_num h d) = Some e"
    by (simp add: rcc_dev_table_at_dev [OF assms])
  from rcc_clk_enable_at_entry [OF t, of s] obtain r where
    r: "array_at enable_regs (unat (clk_domain e)) = Some r"
    and run: "rcc_clk_enable h (dev_num h d) s =
      Returned (reg_set_bits r (BIT (unat (line_num e))) s)" by blast
  have l: "unat (line_num e) < 32" using rcc_dev_table_entry [OF t] by simp
  show ?thesis
    using e r run l
    by (auto simp: reg_set_bits_def reg_write_def bit_or_iff bit_BIT)
qed

theorem rcc_clk_enable_sets_one_bit_witness:
  "inj (dev_num rcc_h0) \<and>
   (\<exists>s'. rcc_clk_enable rcc_h0 (dev_num rcc_h0 RCC_USART2) zeroed = Returned s' \<and>
      bit (regs s' RCC_APB1ENR) 17 \<and>
      (\<forall>i. i \<noteq> 17 \<longrightarrow> bit (regs s' RCC_APB1ENR) i = bit (regs zeroed RCC_APB1ENR) i) \<and>
      (\<forall>a. a \<noteq> RCC_APB1ENR \<longrightarrow> regs s' a = regs zeroed a))"
  using rcc_clk_enable_sets_one_bit [OF inj_dev_num_rcc_h0, of RCC_USART2 zeroed]
    inj_dev_num_rcc_h0
  by (simp add: rcc_dev_inits_def enable_regs_at)

text \<open>
  Claim C5. For every peripheral \<open>d\<close> of the table, \<^verbatim>\<open>rcc_reset_dev\<close> returns after exactly
  two writes to the reset register of \<open>d\<close>'s bus domain: the first writes the register
  with the bit at \<open>d\<close>'s line number set, the second writes it with that bit cleared. The
  bit is clear after the call, and when it was clear before the call the register holds
  its old value again.
\<close>

theorem rcc_reset_dev_pulses:
  assumes "inj (dev_num h)"
  shows "\<exists>e r s'.
     map_of rcc_dev_inits d = Some e \<and>
     array_at reset_regs (unat (clk_domain e)) = Some r \<and>
     rcc_reset_dev h (dev_num h d) s = Returned s' \<and>
     trace s' = trace s @
       [Wr r (regs s r OR BIT (unat (line_num e))),
        Wr r ((regs s r OR BIT (unat (line_num e))) AND NOT (BIT (unat (line_num e))))] \<and>
     bit (regs s r OR BIT (unat (line_num e))) (unat (line_num e)) \<and>
     \<not> bit ((regs s r OR BIT (unat (line_num e))) AND NOT (BIT (unat (line_num e))))
           (unat (line_num e)) \<and>
     \<not> bit (regs s' r) (unat (line_num e)) \<and>
     (\<not> bit (regs s r) (unat (line_num e)) \<longrightarrow> regs s' r = regs s r)"
proof -
  obtain e where e: "map_of rcc_dev_inits d = Some e"
    using rcc_dev_inits_total by blast
  then have t: "rcc_dev_table h (dev_num h d) = Some e"
    by (simp add: rcc_dev_table_at_dev [OF assms])
  from rcc_reset_dev_at_entry [OF t, of s] obtain r where
    r: "array_at reset_regs (unat (clk_domain e)) = Some r"
    and run: "rcc_reset_dev h (dev_num h d) s =
       Returned (reg_clear_bits r (BIT (unat (line_num e)))
                  (reg_set_bits r (BIT (unat (line_num e))) s))" by blast
  have l: "unat (line_num e) < 32" using rcc_dev_table_entry [OF t] by simp
  show ?thesis
    using e r run l
    by (auto simp: reg_set_bits_def reg_clear_bits_def reg_write_def
        bit_or_iff bit_and_iff bit_not_iff bit_BIT pulse_restores)
qed

theorem rcc_reset_dev_pulses_witness:
  "inj (dev_num rcc_h0) \<and>
   (\<exists>s'. rcc_reset_dev rcc_h0 (dev_num rcc_h0 RCC_ADC1) zeroed = Returned s' \<and>
      trace s' = [Wr RCC_APB2RSTR 0x200, Wr RCC_APB2RSTR 0] \<and>
      \<not> bit (regs zeroed RCC_APB2RSTR) 9 \<and>
      regs s' RCC_APB2RSTR = regs zeroed RCC_APB2RSTR)"
proof -
  have z: "\<not> bit (regs zeroed RCC_APB2RSTR) 9" by (simp add: zeroed_def)
  have b: "BIT 9 = 0x200" by (simp add: BIT_def)
  show ?thesis
    using rcc_reset_dev_pulses [OF inj_dev_num_rcc_h0, of RCC_ADC1 zeroed]
      inj_dev_num_rcc_h0 z
    by (simp add: rcc_dev_inits_def enable_regs_at b) (auto simp: zeroed_def)
qed

text \<open>
  Claim C7. \<^verbatim>\<open>rcc_clk_enable\<close> is idempotent: for every peripheral of the table and every
  starting state, a second call leaves all registers as the first call left them. On an
  APB2 enable register that holds zero, \<^verbatim>\<open>rcc_clk_enable(RCC_GPIOA)\<close> leaves exactly bit 2
  set, and a second call leaves the same value.
\<close>

theorem rcc_clk_enable_idempotent:
  assumes "inj (dev_num h)"
  shows "(\<exists>s1 s2.
       rcc_clk_enable h (dev_num h d) s = Returned s1 \<and>
       rcc_clk_enable h (dev_num h d) s1 = Returned s2 \<and>
       regs s2 = regs s1) \<and>
     (regs s RCC_APB2ENR = 0 \<longrightarrow>
       (\<exists>s1 s2.
          rcc_clk_enable h (dev_num h RCC_GPIOA) s = Returned s1 \<and>
          regs s1 RCC_APB2ENR = push_bit 2 1 \<and>
          rcc_clk_enable h (dev_num h RCC_GPIOA) s1 = Returned s2 \<and>
          regs s2 RCC_APB2ENR = push_bit 2 1))"
proof -
  have twice: "\<exists>r. array_at enable_regs (unat (clk_domain e)) = Some r \<and>
       rcc_clk_enable h (dev_num h d') s
         = Returned (reg_set_bits r (BIT (unat (line_num e))) s) \<and>
       rcc_clk_enable h (dev_num h d') (reg_set_bits r (BIT (unat (line_num e))) s)
         = Returned (reg_set_bits r (BIT (unat (line_num e)))
                      (reg_set_bits r (BIT (unat (line_num e))) s)) \<and>
       regs (reg_set_bits r (BIT (unat (line_num e)))
              (reg_set_bits r (BIT (unat (line_num e))) s))
         = regs (reg_set_bits r (BIT (unat (line_num e))) s)"
    if "map_of rcc_dev_inits d' = Some e" for d' e
  proof -
    from that have t: "rcc_dev_table h (dev_num h d') = Some e"
      by (simp add: rcc_dev_table_at_dev [OF assms])
    from rcc_clk_enable_at_entry [OF t, of s] obtain r where
      r: "array_at enable_regs (unat (clk_domain e)) = Some r"
      and one: "rcc_clk_enable h (dev_num h d') s
         = Returned (reg_set_bits r (BIT (unat (line_num e))) s)" by blast
    from rcc_clk_enable_at_entry [OF t, of "reg_set_bits r (BIT (unat (line_num e))) s"] r
    have two: "rcc_clk_enable h (dev_num h d') (reg_set_bits r (BIT (unat (line_num e))) s)
         = Returned (reg_set_bits r (BIT (unat (line_num e)))
                      (reg_set_bits r (BIT (unat (line_num e))) s))" by simp
    have "regs (reg_set_bits r (BIT (unat (line_num e)))
              (reg_set_bits r (BIT (unat (line_num e))) s))
         = regs (reg_set_bits r (BIT (unat (line_num e))) s)"
      by (simp add: reg_set_bits_def reg_write_def)
    with r one two show ?thesis by blast
  qed
  obtain e where e: "map_of rcc_dev_inits d = Some e"
    using rcc_dev_inits_total by blast
  have first: "\<exists>s1 s2.
       rcc_clk_enable h (dev_num h d) s = Returned s1 \<and>
       rcc_clk_enable h (dev_num h d) s1 = Returned s2 \<and>
       regs s2 = regs s1"
    using twice [OF e] by blast
  have g: "map_of rcc_dev_inits RCC_GPIOA = Some \<lparr>clk_domain = APB2, line_num = 2\<rparr>"
    by (simp add: rcc_dev_inits_def)
  have second: "\<exists>s1 s2.
          rcc_clk_enable h (dev_num h RCC_GPIOA) s = Returned s1 \<and>
          regs s1 RCC_APB2ENR = push_bit 2 1 \<and>
          rcc_clk_enable h (dev_num h RCC_GPIOA) s1 = Returned s2 \<and>
          regs s2 RCC_APB2ENR = push_bit 2 1"
    if "regs s RCC_APB2ENR = 0"
    using twice [OF g] that
    by (auto simp: enable_regs_at reg_set_bits_def reg_write_def BIT_def)
  from first second show ?thesis by blast
qed

theorem rcc_clk_enable_idempotent_witness:
  "inj (dev_num rcc_h0) \<and> regs zeroed RCC_APB2ENR = 0 \<and>
   (\<exists>s1 s2.
      rcc_clk_enable rcc_h0 0 zeroed = Returned s1 \<and>
      regs s1 RCC_APB2ENR = 4 \<and>
      rcc_clk_enable rcc_h0 0 s1 = Returned s2 \<and>
      regs s2 RCC_APB2ENR = 4)"
proof -
  have z: "regs zeroed RCC_APB2ENR = 0" by (simp add: zeroed_def)
  have n: "dev_num rcc_h0 RCC_GPIOA = 0" by (simp add: rcc_h0_def)
  show ?thesis
    using rcc_clk_enable_idempotent [OF inj_dev_num_rcc_h0, of RCC_GPIOA zeroed]
      inj_dev_num_rcc_h0 z
    by (simp add: n)
qed

subsection \<open>The descriptor table as written\<close>

text \<open>
  Claim C10. Every entry of \<^verbatim>\<open>rcc_dev_table\<close> has \<^verbatim>\<open>clk_domain\<close> APB1 or APB2, and none
  has AHB. So for every peripheral of the table \<^verbatim>\<open>rcc_reset_dev\<close> indexes \<^verbatim>\<open>reset_regs\<close>
  within its two entries and finds the APB1 or the APB2 reset register there; it returns,
  the two accesses it has made are writes to that very register, and no other register
  has changed.
\<close>

theorem rcc_dev_table_reset_in_range:
  "list_all (\<lambda>(d, e). clk_domain e = APB1 \<or> clk_domain e = APB2) rcc_dev_inits \<and>
   (\<forall>e. map_of rcc_dev_inits d = Some e \<longrightarrow> clk_domain e \<noteq> AHB) \<and>
   (inj (dev_num h) \<longrightarrow>
     (\<exists>e r s'.
        map_of rcc_dev_inits d = Some e \<and>
        rcc_dev_table h (dev_num h d) = Some e \<and>
        unat (clk_domain e) < length reset_regs \<and>
        r = reset_regs ! unat (clk_domain e) \<and>
        array_at reset_regs (unat (clk_domain e)) = Some r \<and>
        (r = RCC_APB1RSTR \<or> r = RCC_APB2RSTR) \<and>
        rcc_reset_dev h (dev_num h d) s = Returned s' \<and>
        trace s' = trace s @
          [Wr r (regs s r OR BIT (unat (line_num e))),
           Wr r ((regs s r OR BIT (unat (line_num e))) AND NOT (BIT (unat (line_num e))))] \<and>
        (\<forall>a. a \<noteq> r \<longrightarrow> regs s' a = regs s a)))"
proof -
  have all: "list_all (\<lambda>(d, e). clk_domain e = APB1 \<or> clk_domain e = APB2) rcc_dev_inits"
    by (simp add: rcc_dev_inits_def)
  have no_ahb: "clk_domain e \<noteq> AHB" if "map_of rcc_dev_inits d = Some e" for e
    using rcc_dev_inits_entry [OF map_of_SomeD [OF that]]
    by (auto simp: APB1_def APB2_def AHB_def)
  have reset: "\<exists>e r s'.
        map_of rcc_dev_inits d = Some e \<and>
        rcc_dev_table h (dev_num h d) = Some e \<and>
        unat (clk_domain e) < length reset_regs \<and>
        r = reset_regs ! unat (clk_domain e) \<and>
        array_at reset_regs (unat (clk_domain e)) = Some r \<and>
        (r = RCC_APB1RSTR \<or> r = RCC_APB2RSTR) \<and>
        rcc_reset_dev h (dev_num h d) s = Returned s' \<and>
        trace s' = trace s @
          [Wr r (regs s r OR BIT (unat (line_num e))),
           Wr r ((regs s r OR BIT (unat (line_num e))) AND NOT (BIT (unat (line_num e))))] \<and>
        (\<forall>a. a \<noteq> r \<longrightarrow> regs s' a = regs s a)"
    if inj: "inj (dev_num h)"
  proof -
    obtain e where e: "map_of rcc_dev_inits d = Some e"
      using rcc_dev_inits_total by blast
    then have t: "rcc_dev_table h (dev_num h d) = Some e"
      by (simp add: rcc_dev_table_at_dev [OF inj])
    from rcc_reset_dev_at_entry [OF t, of s] obtain r where
      r: "array_at reset_regs (unat (clk_domain e)) = Some r"
      and which: "r = RCC_APB1RSTR \<or> r = RCC_APB2RSTR"
      and run: "rcc_reset_dev h (dev_num h d) s =
        Returned (reg_clear_bits r (BIT (unat (line_num e)))
                   (reg_set_bits r (BIT (unat (line_num e))) s))" by blast
    have len: "unat (clk_domain e) < length reset_regs"
      using rcc_dev_table_entry [OF t] by (auto simp: reset_regs_def APB1_def APB2_def)
    with r have nth: "r = reset_regs ! unat (clk_domain e)"
      by (simp add: array_at_def)
    define s' where "s' = reg_clear_bits r (BIT (unat (line_num e)))
                   (reg_set_bits r (BIT (unat (line_num e))) s)"
    have tr: "trace s' = trace s @
          [Wr r (regs s r OR BIT (unat (line_num e))),
           Wr r ((regs s r OR BIT (unat (line_num e))) AND NOT (BIT (unat (line_num e))))]"
      and others: "\<forall>a. a \<noteq> r \<longrightarrow> regs s' a = regs s a"
      by (simp_all add: s'_def reg_set_bits_def reg_clear_bits_def reg_write_def)
    from e t len nth r which run [folded s'_def] tr others show ?thesis by blast
  qed
  from all no_ahb reset show ?thesis by blast
qed

theorem rcc_dev_table_reset_in_range_witness:
  "inj (dev_num rcc_h0) \<and>
   map_of rcc_dev_inits RCC_TIMER4 = Some \<lparr>clk_domain = APB1, line_num = 2\<rparr> \<and>
   APB1 \<noteq> AHB \<and>
   rcc_dev_table rcc_h0 12 = Some \<lparr>clk_domain = APB1, line_num = 2\<rparr> \<and>
   array_at reset_regs (unat APB1) = Some RCC_APB1RSTR \<and>
   (\<exists>s'. rcc_reset_dev rcc_h0 12 zeroed = Returned s' \<and>
      trace s' = [Wr RCC_APB1RSTR 4, Wr RCC_APB1RSTR 0] \<and>
      regs s' RCC_APB1ENR = regs zeroed RCC_APB1ENR)"
proof -
  have m: "map_of rcc_dev_inits RCC_TIMER4 = Some \<lparr>clk_domain = APB1, line_num = 2\<rparr>"
    by (simp add: rcc_dev_inits_def)
  have n: "dev_num rcc_h0 RCC_TIMER4 = 12" by (simp add: rcc_h0_def)
  have b: "BIT 2 = 4" by (simp add: BIT_def)
  have ne: "RCC_APB1ENR \<noteq> RCC_APB1RSTR" by (simp add: rcc_consts)
  from rcc_dev_table_reset_in_range [of RCC_TIMER4 rcc_h0 zeroed] inj_dev_num_rcc_h0 m
  obtain s' where "rcc_dev_table rcc_h0 12 = Some \<lparr>clk_domain = APB1, line_num = 2\<rparr>"
    "rcc_reset_dev rcc_h0 12 zeroed = Returned s'"
    "trace s' = [Wr RCC_APB1RSTR 4, Wr RCC_APB1RSTR 0]"
    "\<forall>a. a \<noteq> RCC_APB1RSTR \<longrightarrow> regs s' a = regs zeroed a"
    by (auto simp: n enable_regs_at b zeroed_def)
  moreover have "APB1 \<noteq> AHB" by (simp add: APB1_def AHB_def)
  ultimately show ?thesis
    using ne inj_dev_num_rcc_h0 m enable_regs_at(3) by blast
qed

text \<open>
  Claim C8. Every peripheral identifier is named by exactly one initialiser of
  \<^verbatim>\<open>rcc_dev_table\<close>, two different identifiers of the same bus domain never have the same
  line number, and (when rcc.h gives different identifiers different numbers) the array
  holds at each identifier's index the entry written for it.
\<close>

theorem rcc_dev_table_one_entry_one_line:
  "count_list (map fst rcc_dev_inits) d = 1 \<and>
   (\<forall>d' e e'. d \<noteq> d' \<and> map_of rcc_dev_inits d = Some e \<and>
      map_of rcc_dev_inits d' = Some e' \<and> clk_domain e = clk_domain e'
      \<longrightarrow> line_num e \<noteq> line_num e') \<and>
   (inj (dev_num h) \<longrightarrow> rcc_dev_table h (dev_num h d) = map_of rcc_dev_inits d)"
proof -
  have one: "count_list (map fst rcc_dev_inits) d = 1"
    by (cases d) (simp_all add: rcc_dev_inits_def)
  have lines: "line_num e \<noteq> line_num e'"
    if "d \<noteq> d'" "map_of rcc_dev_inits d = Some e" "map_of rcc_dev_inits d' = Some e'"
      "clk_domain e = clk_domain e'" for d' e e'
  proof
    assume same: "line_num e = line_num e'"
    have "distinct (map (\<lambda>(d, e). (clk_domain e, line_num e)) rcc_dev_inits)"
      by (simp add: rcc_dev_inits_def APB1_def APB2_def)
    then have inj: "inj_on (\<lambda>(d, e). (clk_domain e, line_num e)) (set rcc_dev_inits)"
      by (simp add: distinct_map)
    have mem: "(d, e) \<in> set rcc_dev_inits" "(d', e') \<in> set rcc_dev_inits"
      using that by (auto dest: map_of_SomeD)
    have "(\<lambda>(d, e). (clk_domain e, line_num e)) (d, e)
        = (\<lambda>(d, e). (clk_domain e, line_num e)) (d', e')"
      using that(4) same by simp
    from inj_onD [OF inj this mem] have "(d, e) = (d', e')" .
    with that(1) show False by simp
  qed
  from one lines rcc_dev_table_at_dev [of h d] show ?thesis by blast
qed

theorem rcc_dev_table_one_entry_one_line_witness:
  "count_list (map fst rcc_dev_inits) RCC_GPIOA = 1 \<and>
   RCC_GPIOA \<noteq> RCC_GPIOC \<and>
   map_of rcc_dev_inits RCC_GPIOA = Some \<lparr>clk_domain = APB2, line_num = 2\<rparr> \<and>
   map_of rcc_dev_inits RCC_GPIOC = Some \<lparr>clk_domain = APB2, line_num = 4\<rparr> \<and>
   line_num \<lparr>clk_domain = APB2, line_num = 2\<rparr> \<noteq> line_num \<lparr>clk_domain = APB2, line_num = 4\<rparr> \<and>
   inj (dev_num rcc_h0) \<and>
   rcc_dev_table rcc_h0 0 = Some \<lparr>clk_domain = APB2, line_num = 2\<rparr>"
proof -
  have a: "map_of rcc_dev_inits RCC_GPIOA = Some \<lparr>clk_domain = APB2, line_num = 2\<rparr>"
    and c: "map_of rcc_dev_inits RCC_GPIOC = Some \<lparr>clk_domain = APB2, line_num = 4\<rparr>"
    by (simp_all add: rcc_dev_inits_def)
  have n: "dev_num rcc_h0 RCC_GPIOA = 0" by (simp add: rcc_h0_def)
  from rcc_dev_table_one_entry_one_line [of RCC_GPIOA rcc_h0] a c inj_dev_num_rcc_h0 n
  show ?thesis by simp
qed

subsection \<open>The prescalers and the configuration register\<close>

lemma masks_at_prescaler:
  assumes "inj (prescaler_num h)"
  shows "masks h (prescaler_num h p) =
     Some (case p of
             RCC_PRESCALER_AHB \<Rightarrow> RCC_CFGR_HPRE
           | RCC_PRESCALER_APB1 \<Rightarrow> RCC_CFGR_PPRE1
           | RCC_PRESCALER_APB2 \<Rightarrow> RCC_CFGR_PPRE2
           | RCC_PRESCALER_USB \<Rightarrow> RCC_CFGR_USBPRE
           | RCC_PRESCALER_ADC \<Rightarrow> RCC_CFGR_ADCPRE)"
  using assms by (cases p) (simp_all add: masks_def designated_def inj_eq)

lemma field_replaced:
  fixes v :: u32
  assumes "(divider AND NOT m) = 0" and "\<not> bit m i"
  shows "bit ((v AND NOT m) OR divider) i = bit v i"
proof -
  have "\<not> bit divider i"
  proof
    assume "bit divider i"
    with assms(2) have "bit (divider AND NOT m) i"
      by (auto simp: bit_and_iff bit_not_iff dest: bit_imp_le_length)
    with assms(1) show False by simp
  qed
  with assms(2) show ?thesis
    by (auto simp: bit_or_iff bit_and_iff bit_not_iff dest: bit_imp_le_length)
qed

lemma field_untouched:
  fixes x :: u32
  assumes "(x AND m) = 0" and "(c AND m) = 0"
  shows "(((x AND NOT k) OR c) AND m) = 0"
proof -
  have "(((x AND NOT k) OR c) AND m) = ((x AND m) AND NOT k) OR (c AND m)"
    by (intro bit_word_eqI) (auto simp: bit_and_iff bit_or_iff bit_not_iff)
  with assms show ?thesis by simp
qed

text \<open>
  Claim C4. For every prescaler selector and every divider, \<^verbatim>\<open>rcc_set_prescaler\<close> returns
  having written to the configuration register the value it read there with the
  selector's mask cleared and the divider or-ed in, and no other register changes. When
  the divider has no bit outside the selector's mask, every bit outside the mask is
  written as it was read; on hardware that only stores, that is the bit's value before
  the call.
\<close>

theorem rcc_set_prescaler_only_its_field:
  assumes "inj (prescaler_num h)"
  shows "\<exists>m s'.
     m = (case p of
            RCC_PRESCALER_AHB \<Rightarrow> RCC_CFGR_HPRE
          | RCC_PRESCALER_APB1 \<Rightarrow> RCC_CFGR_PPRE1
          | RCC_PRESCALER_APB2 \<Rightarrow> RCC_CFGR_PPRE2
          | RCC_PRESCALER_USB \<Rightarrow> RCC_CFGR_USBPRE
          | RCC_PRESCALER_ADC \<Rightarrow> RCC_CFGR_ADCPRE) \<and>
     masks h (prescaler_num h p) = Some m \<and>
     rcc_set_prescaler hw h (prescaler_num h p) divider s = Returned s' \<and>
     regs s' RCC_CFGR = ((hw (length (trace s)) (regs s) RCC_CFGR AND NOT m) OR divider) \<and>
     (\<forall>a. a \<noteq> RCC_CFGR \<longrightarrow> regs s' a = regs s a) \<and>
     ((divider AND NOT m) = 0 \<longrightarrow>
        (\<forall>i. \<not> bit m i \<longrightarrow>
           bit (regs s' RCC_CFGR) i = bit (hw (length (trace s)) (regs s) RCC_CFGR) i)) \<and>
     ((divider AND NOT m) = 0 \<and> hw = stored \<longrightarrow>
        (\<forall>i. \<not> bit m i \<longrightarrow> bit (regs s' RCC_CFGR) i = bit (regs s RCC_CFGR) i))"
proof -
  define m where "m = (case p of
            RCC_PRESCALER_AHB \<Rightarrow> RCC_CFGR_HPRE
          | RCC_PRESCALER_APB1 \<Rightarrow> RCC_CFGR_PPRE1
          | RCC_PRESCALER_APB2 \<Rightarrow> RCC_CFGR_PPRE2
          | RCC_PRESCALER_USB \<Rightarrow> RCC_CFGR_USBPRE
          | RCC_PRESCALER_ADC \<Rightarrow> RCC_CFGR_ADCPRE)"
  define v where "v = hw (length (trace s)) (regs s) RCC_CFGR"
  define s' where "s' = reg_write RCC_CFGR ((v AND NOT m) OR divider)
      (s\<lparr>trace := trace s @ [Rd RCC_CFGR v]\<rparr>)"
  have mk: "masks h (prescaler_num h p) = Some m"
    by (simp add: masks_at_prescaler [OF assms] m_def)
  have run: "rcc_set_prescaler hw h (prescaler_num h p) divider s = Returned s'"
    by (simp add: rcc_set_prescaler_def reg_read_def Let_def mk s'_def v_def)
  have val: "regs s' RCC_CFGR = ((v AND NOT m) OR divider)"
    and others: "\<forall>a. a \<noteq> RCC_CFGR \<longrightarrow> regs s' a = regs s a"
    by (simp_all add: s'_def reg_write_def)
  have frame: "\<forall>i. \<not> bit m i \<longrightarrow> bit (regs s' RCC_CFGR) i = bit v i"
    if "(divider AND NOT m) = 0"
    using field_replaced [OF that] by (simp add: val)
  have sv: "v = regs s RCC_CFGR" if "hw = stored"
    using that by (simp add: v_def stored_def)
  have "m = (case p of
            RCC_PRESCALER_AHB \<Rightarrow> RCC_CFGR_HPRE
          | RCC_PRESCALER_APB1 \<Rightarrow> RCC_CFGR_PPRE1
          | RCC_PRESCALER_APB2 \<Rightarrow> RCC_CFGR_PPRE2
          | RCC_PRESCALER_USB \<Rightarrow> RCC_CFGR_USBPRE
          | RCC_PRESCALER_ADC \<Rightarrow> RCC_CFGR_ADCPRE) \<and>
     masks h (prescaler_num h p) = Some m \<and>
     rcc_set_prescaler hw h (prescaler_num h p) divider s = Returned s' \<and>
     regs s' RCC_CFGR = ((v AND NOT m) OR divider) \<and>
     (\<forall>a. a \<noteq> RCC_CFGR \<longrightarrow> regs s' a = regs s a) \<and>
     ((divider AND NOT m) = 0 \<longrightarrow>
        (\<forall>i. \<not> bit m i \<longrightarrow> bit (regs s' RCC_CFGR) i = bit v i)) \<and>
     ((divider AND NOT m) = 0 \<and> hw = stored \<longrightarrow>
        (\<forall>i. \<not> bit m i \<longrightarrow> bit (regs s' RCC_CFGR) i = bit (regs s RCC_CFGR) i))"
    using mk run val others frame sv m_def by metis
  then show ?thesis unfolding v_def by blast
qed

theorem rcc_set_prescaler_only_its_field_witness:
  "inj (prescaler_num rcc_h0) \<and>
   (0x400 AND NOT RCC_CFGR_PPRE1) = 0 \<and>
   \<not> bit RCC_CFGR_PPRE1 4 \<and>
   (\<exists>s'. rcc_set_prescaler stored rcc_h0 1 0x400
           (zeroed\<lparr>regs := (regs zeroed)(RCC_CFGR := 0x1D0092)\<rparr>) = Returned s' \<and>
      regs s' RCC_CFGR = 0x1D0492 \<and>
      bit (regs s' RCC_CFGR) 4 =
        bit (regs (zeroed\<lparr>regs := (regs zeroed)(RCC_CFGR := 0x1D0092)\<rparr>) RCC_CFGR) 4)"
proof -
  have d: "(0x400 AND NOT RCC_CFGR_PPRE1) = 0" and b: "\<not> bit RCC_CFGR_PPRE1 4"
    by (simp_all add: RCC_CFGR_PPRE1_def)
  have n: "prescaler_num rcc_h0 RCC_PRESCALER_APB1 = 1" by (simp add: rcc_h0_def)
  have v: "(0x1D0092 AND NOT RCC_CFGR_PPRE1) OR 0x400 = (0x1D0492 :: u32)"
    by (simp add: RCC_CFGR_PPRE1_def)
  from rcc_set_prescaler_only_its_field
    [OF inj_prescaler_num_rcc_h0, of RCC_PRESCALER_APB1 stored "0x400"
      "zeroed\<lparr>regs := (regs zeroed)(RCC_CFGR := 0x1D0092)\<rparr>"]
  obtain s' where
    "rcc_set_prescaler stored rcc_h0 1 0x400
       (zeroed\<lparr>regs := (regs zeroed)(RCC_CFGR := 0x1D0092)\<rparr>) = Returned s'"
    "regs s' RCC_CFGR = 0x1D0492"
    "bit (regs s' RCC_CFGR) 4 =
        bit (regs (zeroed\<lparr>regs := (regs zeroed)(RCC_CFGR := 0x1D0092)\<rparr>) RCC_CFGR) 4"
    using d b by (auto simp: n stored_def v)
  with inj_prescaler_num_rcc_h0 d b show ?thesis by blast
qed

lemma field_passed:
  fixes x :: u32
  assumes "(m AND k) = 0" and "(c AND m) = 0"
  shows "(((x AND NOT k) OR c) AND m) = (x AND m)"
proof (rule bit_word_eqI)
  fix i
  have "\<not> bit (m AND k) i" "\<not> bit (c AND m) i"
    using assms by simp_all
  then show "bit (((x AND NOT k) OR c) AND m) i = bit (x AND m) i"
    by (auto simp: bit_and_iff bit_or_iff bit_not_iff dest: bit_imp_le_length)
qed

text \<open>
  Claim C9 says that when \<^verbatim>\<open>rcc_clk_init\<close> returns all five prescaler fields of the
  configuration register are zero. \<^verbatim>\<open>pll_mul\<close> is or-ed into the register unmasked: with
  \<^verbatim>\<open>pll_mul = 0x700\<close> the call returns with \<^verbatim>\<open>0x10702\<close> in the configuration register,
  whose PPRE1 field is \<^verbatim>\<open>0x700\<close>, not zero.
\<close>

theorem rcc_clk_init_overwrites_cfgr_counterexample:
  "rcc_clk_init hw_follow rcc_h0 0x2 (push_bit 16 0x1) 0x700 zeroed =
     Some (Returned
       \<lparr>regs = (regs zeroed)
          (RCC_CFGR := 0x10700, RCC_CR := 0x10000, RCC_CR := 0x1010000, RCC_CFGR := 0x10702),
        trace =
          [Rd RCC_CR 0, Wr RCC_CFGR 0x10700, Wr RCC_CR 0x10000,
           Rd RCC_CR 0x10000, Rd RCC_CR 0x10000, Rd RCC_CR 0x30000,
           Wr RCC_CR 0x1010000, Rd RCC_CR 0x3030000,
           Wr RCC_CFGR 0x10702, Rd RCC_CFGR 0x1070A]\<rparr>) \<and>
   (((regs zeroed)
       (RCC_CFGR := 0x10700, RCC_CR := 0x10000, RCC_CR := 0x1010000, RCC_CFGR := 0x10702))
      RCC_CFGR AND RCC_CFGR_PPRE1) = 0x700"
  by (simp add: rcc_clk_init_def rcc_h0_def zeroed_def reg_read_def reg_write_def Let_def
      busy_wait_exit busy_wait_again hw_follow_def rcc_consts)

text \<open>
  Claim C9, as the code has it. When
  \<^verbatim>\<open>rcc_clk_init(RCC_CLKSRC_PLL, RCC_PLLSRC_HSE, pll_mul)\<close> returns, the configuration
  register holds \<^verbatim>\<open>pll_src | pll_mul\<close> with the SW field replaced by PLL, whatever it held
  before the call: the value is built from the arguments alone, and a prescaler setting
  made before the call is gone. Each of the five prescaler fields holds the bits
  \<^verbatim>\<open>pll_src | pll_mul\<close> has in it, so it is zero when the arguments have no bit there.
\<close>

theorem rcc_clk_init_overwrites_cfgr:
  assumes "rcc_clk_init hw h (RCC_CLKSRC_PLL h) (RCC_PLLSRC_HSE h) pll_mul s
           = Some (Returned s')"
  shows "regs s' RCC_CFGR
           = ((RCC_PLLSRC_HSE h OR pll_mul) AND NOT RCC_CFGR_SW) OR RCC_CFGR_SW_PLL \<and>
     (regs s' RCC_CFGR AND RCC_CFGR_SW) = RCC_CFGR_SW_PLL \<and>
     (\<forall>m \<in> {RCC_CFGR_HPRE, RCC_CFGR_PPRE1, RCC_CFGR_PPRE2, RCC_CFGR_ADCPRE, RCC_CFGR_USBPRE}.
        (regs s' RCC_CFGR AND m) = ((RCC_PLLSRC_HSE h OR pll_mul) AND m)) \<and>
     (\<forall>m \<in> {RCC_CFGR_HPRE, RCC_CFGR_PPRE1, RCC_CFGR_PPRE2, RCC_CFGR_ADCPRE, RCC_CFGR_USBPRE}.
        ((RCC_PLLSRC_HSE h OR pll_mul) AND m) = 0 \<longrightarrow> (regs s' RCC_CFGR AND m) = 0)"
proof -
  from rcc_clk_init_Returned [OF assms]
  have val: "regs s' RCC_CFGR
           = ((RCC_PLLSRC_HSE h OR pll_mul) AND NOT RCC_CFGR_SW) OR RCC_CFGR_SW_PLL"
    by auto
  have sw: "(((x AND NOT RCC_CFGR_SW) OR RCC_CFGR_SW_PLL) AND RCC_CFGR_SW) = RCC_CFGR_SW_PLL"
    for x :: u32
  proof -
    have "(((x AND NOT RCC_CFGR_SW) OR RCC_CFGR_SW_PLL) AND RCC_CFGR_SW)
        = ((x AND RCC_CFGR_SW) AND NOT RCC_CFGR_SW) OR (RCC_CFGR_SW_PLL AND RCC_CFGR_SW)"
      by (intro bit_word_eqI) (auto simp: bit_and_iff bit_or_iff bit_not_iff)
    also have "\<dots> = RCC_CFGR_SW_PLL AND RCC_CFGR_SW"
      by (intro bit_word_eqI) (auto simp: bit_and_iff bit_or_iff bit_not_iff)
    also have "\<dots> = RCC_CFGR_SW_PLL"
      by (simp add: RCC_CFGR_SW_PLL_def RCC_CFGR_SW_def)
    finally show ?thesis .
  qed
  have pll: "(RCC_CFGR_SW_PLL AND m) = 0" and apart: "(m AND RCC_CFGR_SW) = 0"
    if "m \<in> {RCC_CFGR_HPRE, RCC_CFGR_PPRE1, RCC_CFGR_PPRE2, RCC_CFGR_ADCPRE, RCC_CFGR_USBPRE}"
    for m
    using that by (auto simp: rcc_consts)
  have same: "(regs s' RCC_CFGR AND m) = ((RCC_PLLSRC_HSE h OR pll_mul) AND m)"
    if "m \<in> {RCC_CFGR_HPRE, RCC_CFGR_PPRE1, RCC_CFGR_PPRE2, RCC_CFGR_ADCPRE, RCC_CFGR_USBPRE}"
    for m
    unfolding val using field_passed [OF apart [OF that] pll [OF that]] .
  have fields: "(regs s' RCC_CFGR AND m) = 0"
    if "m \<in> {RCC_CFGR_HPRE, RCC_CFGR_PPRE1, RCC_CFGR_PPRE2, RCC_CFGR_ADCPRE, RCC_CFGR_USBPRE}"
      and "((RCC_PLLSRC_HSE h OR pll_mul) AND m) = 0" for m
    using same [OF that(1)] that(2) by simp
  have "(regs s' RCC_CFGR AND RCC_CFGR_SW) = RCC_CFGR_SW_PLL"
    unfolding val by (rule sw)
  with val same fields show ?thesis by blast
qed

theorem rcc_clk_init_overwrites_cfgr_witness:
  "\<exists>s'. rcc_clk_init hw_follow rcc_h0 (RCC_CLKSRC_PLL rcc_h0) (RCC_PLLSRC_HSE rcc_h0)
          (push_bit 18 0x7) (zeroed\<lparr>regs := (regs zeroed)(RCC_CFGR := 0x700)\<rparr>)
        = Some (Returned s') \<and>
      regs s' RCC_CFGR = 0x1D0002 \<and>
      ((RCC_PLLSRC_HSE rcc_h0 OR push_bit 18 0x7) AND RCC_CFGR_PPRE1) = 0 \<and>
      (regs s' RCC_CFGR AND RCC_CFGR_PPRE1) = 0"
proof -
  have "\<exists>s'. rcc_clk_init hw_follow rcc_h0 (RCC_CLKSRC_PLL rcc_h0) (RCC_PLLSRC_HSE rcc_h0)
          (push_bit 18 0x7) (zeroed\<lparr>regs := (regs zeroed)(RCC_CFGR := 0x700)\<rparr>)
        = Some (Returned s')"
    by (simp add: rcc_clk_init_def rcc_h0_def zeroed_def reg_read_def reg_write_def Let_def
        busy_wait_exit busy_wait_again hw_follow_def rcc_consts)
  then obtain s' where
    run: "rcc_clk_init hw_follow rcc_h0 (RCC_CLKSRC_PLL rcc_h0) (RCC_PLLSRC_HSE rcc_h0)
          (push_bit 18 0x7) (zeroed\<lparr>regs := (regs zeroed)(RCC_CFGR := 0x700)\<rparr>)
        = Some (Returned s')" by blast
  have arg: "((RCC_PLLSRC_HSE rcc_h0 OR push_bit 18 0x7) AND RCC_CFGR_PPRE1) = 0"
    by (simp add: rcc_h0_def RCC_CFGR_PPRE1_def)
  have val: "((RCC_PLLSRC_HSE rcc_h0 OR push_bit 18 0x7) AND NOT RCC_CFGR_SW) OR RCC_CFGR_SW_PLL
      = 0x1D0002"
    by (simp add: rcc_h0_def RCC_CFGR_SW_def RCC_CFGR_SW_PLL_def)
  from rcc_clk_init_overwrites_cfgr [OF run] arg val
  have "regs s' RCC_CFGR = 0x1D0002 \<and> (regs s' RCC_CFGR AND RCC_CFGR_PPRE1) = 0"
    by auto
  with run arg show ?thesis by blast
qed

subsection \<open>Numbers that name no peripheral\<close>

lemma rcc_dev_table_None:
  "rcc_dev_table h n = None \<longleftrightarrow> (\<forall>d. dev_num h d < n)"
proof
  assume "rcc_dev_table h n = None"
  then have all: "list_all (\<lambda>(k, v). dev_num h k < n) rcc_dev_inits"
    by (auto simp: rcc_dev_table_def designated_def split: if_splits option.splits)
  show "\<forall>d. dev_num h d < n"
  proof
    fix d
    from all show "dev_num h d < n"
      by (cases d) (simp_all add: rcc_dev_inits_def)
  qed
next
  assume "\<forall>d. dev_num h d < n"
  then show "rcc_dev_table h n = None"
    by (simp add: rcc_dev_table_def designated_def list_all_iff split_beta)
qed

text \<open>
  Claim C6 says that an out-of-range identifier makes \<^verbatim>\<open>rcc_clk_enable\<close> and
  \<^verbatim>\<open>rcc_reset_dev\<close> fail at an assertion. Neither function contains one. With the
  thirteen peripherals numbered 0 to 12, the number 13 makes both read
  \<^verbatim>\<open>rcc_dev_table\<close> past its end: the outcome is the out-of-bounds read, not a failed
  assertion.
\<close>

theorem rcc_dev_num_unchecked_counterexample:
  "rcc_dev_table rcc_h0 13 = None \<and>
   rcc_clk_enable rcc_h0 13 zeroed = Out_of_bounds zeroed \<and>
   rcc_clk_enable rcc_h0 13 zeroed \<noteq> Assert_failed zeroed \<and>
   rcc_reset_dev rcc_h0 13 zeroed = Out_of_bounds zeroed \<and>
   rcc_reset_dev rcc_h0 13 zeroed \<noteq> Assert_failed zeroed"
proof -
  have "rcc_dev_table rcc_h0 13 = None"
    by (simp add: rcc_dev_table_def designated_def rcc_dev_inits_def rcc_h0_def)
  then show ?thesis
    by (simp add: rcc_clk_enable_def rcc_reset_dev_def)
qed

text \<open>
  Claim C6, as the code has it. No call of \<^verbatim>\<open>rcc_clk_enable\<close> or \<^verbatim>\<open>rcc_reset_dev\<close> ends
  in a failed assertion. No entry the table can yield is in the AHB domain, so
  \<^verbatim>\<open>rcc_reset_dev\<close> is never asked for a reset register that does not exist. For a
  number up to the largest one rcc.h gives a peripheral both functions return; for a
  number beyond it both read the table out of bounds, unchecked.
\<close>

theorem rcc_dev_num_unchecked:
  "(\<forall>s'. rcc_clk_enable h n s \<noteq> Assert_failed s') \<and>
   (\<forall>s'. rcc_reset_dev h n s \<noteq> Assert_failed s') \<and>
   (\<forall>e. rcc_dev_table h n = Some e \<longrightarrow> clk_domain e \<noteq> AHB) \<and>
   ((\<exists>d. n \<le> dev_num h d) \<longrightarrow>
      (\<exists>s'. rcc_clk_enable h n s = Returned s') \<and>
      (\<exists>s'. rcc_reset_dev h n s = Returned s')) \<and>
   ((\<forall>d. dev_num h d < n) \<longrightarrow>
      rcc_clk_enable h n s = Out_of_bounds s \<and> rcc_reset_dev h n s = Out_of_bounds s)"
proof (cases "rcc_dev_table h n")
  case None
  then have "\<forall>d. dev_num h d < n" by (simp add: rcc_dev_table_None)
  then have "\<not> (\<exists>d. n \<le> dev_num h d)" by (auto simp: not_le)
  with None show ?thesis
    by (simp add: rcc_clk_enable_def rcc_reset_dev_def)
next
  case (Some e)
  then have "\<not> (\<forall>d. dev_num h d < n)" using rcc_dev_table_None [of h n] by simp
  moreover from rcc_clk_enable_at_entry [OF Some, of s]
  have "\<exists>s'. rcc_clk_enable h n s = Returned s'" by blast
  moreover from rcc_reset_dev_at_entry [OF Some, of s]
  have "\<exists>s'. rcc_reset_dev h n s = Returned s'" by blast
  moreover have "clk_domain e \<noteq> AHB"
    using rcc_dev_table_entry [OF Some] by (auto simp: APB1_def APB2_def AHB_def)
  ultimately show ?thesis using Some by auto
qed

theorem rcc_dev_num_unchecked_witness:
  "rcc_dev_table rcc_h0 7 = Some \<lparr>clk_domain = APB1, line_num = 17\<rparr> \<and>
   APB1 \<noteq> AHB \<and>
   7 \<le> dev_num rcc_h0 RCC_TIMER4 \<and>
   (\<exists>s'. rcc_clk_enable rcc_h0 7 zeroed = Returned s') \<and>
   (\<exists>s'. rcc_reset_dev rcc_h0 7 zeroed = Returned s') \<and>
   (\<forall>d. dev_num rcc_h0 d < 13) \<and>
   rcc_clk_enable rcc_h0 13 zeroed = Out_of_bounds zeroed \<and>
   rcc_reset_dev rcc_h0 13 zeroed = Out_of_bounds zeroed"
proof -
  have t: "rcc_dev_table rcc_h0 7 = Some \<lparr>clk_domain = APB1, line_num = 17\<rparr>"
    by (simp add: rcc_dev_table_def designated_def rcc_dev_inits_def rcc_h0_def)
  have le: "7 \<le> dev_num rcc_h0 RCC_TIMER4" by (simp add: rcc_h0_def)
  have lt: "\<forall>d. dev_num rcc_h0 d < 13"
  proof
    fix d show "dev_num rcc_h0 d < 13" by (cases d) (simp_all add: rcc_h0_def)
  qed
  from rcc_dev_num_unchecked [of rcc_h0 7 zeroed] t le
  have a: "APB1 \<noteq> AHB \<and> (\<exists>s'. rcc_clk_enable rcc_h0 7 zeroed = Returned s') \<and>
      (\<exists>s'. rcc_reset_dev rcc_h0 7 zeroed = Returned s')"
    by auto
  from rcc_dev_num_unchecked [of rcc_h0 13 zeroed] lt
  have b: "rcc_clk_enable rcc_h0 13 zeroed = Out_of_bounds zeroed \<and>
      rcc_reset_dev rcc_h0 13 zeroed = Out_of_bounds zeroed"
    by blast
  from t le lt a b show ?thesis by blast
qed

end
